theory Spec2Isabelle
  imports Complex_Main "HOL-Library.AList" "HOL-Library.Log_Nat"
begin

section \<open>Numbers, maps and records of the recommendation engine\<close>

text \<open>
  The scoring engine of the application: \<open>computeRecommendStats\<close> (module
  \<open>lib/aggregates\<close>), \<open>calculateSimilarity\<close>, \<open>getRecencyMultiplier\<close>,
  \<open>applyDeckModeMultiplier\<close> and \<open>getPersonalizedRecommendations\<close> (module \<open>lib/reco\<close>) and
  \<open>getHomePicks\<close> (module \<open>lib/homePicks\<close>). The source file \<open>src/lib/feed.ts\<close> holds the
  modules \<open>feed\<close>, \<open>aggregates\<close>, \<open>reco\<close> and \<open>dev\<close> one after the other; the line numbers
  quoted for \<open>aggregates\<close> and \<open>reco\<close> are lines of that file, those quoted for
  \<open>getHomePicks\<close> are lines of its own file. The default arguments of the source
  (\<open>mode = 'tonight'\<close>, an empty exclusion set) are left to the caller: every function of
  the model takes all its arguments.

  The TypeScript sources compute with JavaScript numbers, which are IEEE 754 doubles. A
  number is modelled by the rational it stands for. \<open>Math.round\<close> is \<^const>\<open>round\<close> (a
  tie goes up) and \<open>Math.floor\<close> is \<^const>\<open>floor\<close>, both exact on the value of a double.
\<close>

type_synonym number = rat

subsection \<open>The arithmetic of doubles\<close>

text \<open>
  Every arithmetic operation of the source yields the double nearest to the exact result,
  a tie going to the double with an even significand. \<open>binexp x\<close> is the binary exponent
  of a positive \<open>x\<close>, the \<open>e\<close> with \<open>2^e \<le> x < 2^(e+1)\<close>; a double with this exponent is a
  multiple of \<open>2^(e-52)\<close>. The exponent range is not bounded: overflow to infinity (above
  \<open>2^1024\<close>), the subnormal numbers (below \<open>2^-1022\<close>) and NaN are outside the model. No
  function below divides by zero: each division of the source follows a test that its
  divisor, a length or a total weight, is not zero.
\<close>

definition binexp :: "rat \<Rightarrow> int" where
  "binexp x =
     (case quotient_of x of (a, b) \<Rightarrow>
        let c = bitlen a - bitlen b in
        if x < 2 powi c then c - 1 else c)"

definition round_even :: "rat \<Rightarrow> int" where
  "round_even y =
     (let f = \<lfloor>y\<rfloor>; d = y - of_int f in
      if d < 1 / 2 then f
      else if 1 / 2 < d then f + 1
      else if even f then f else f + 1)"

definition double_pos :: "rat \<Rightarrow> number" where
  "double_pos x = (let q = 2 powi (binexp x - 52) in of_int (round_even (x / q)) * q)"

text \<open>
  The double nearest to \<open>x\<close>. A decimal literal of the source denotes \<open>double\<close> of the
  decimal: \<open>0.3\<close> in the source is \<open>double 0.3\<close> here.
\<close>

definition double :: "rat \<Rightarrow> number" where
  "double x = (if x = 0 then 0 else if x < 0 then - double_pos (- x) else double_pos x)"

definition js_add :: "number \<Rightarrow> number \<Rightarrow> number" where
  "js_add x y = double (x + y)"

definition js_sub :: "number \<Rightarrow> number \<Rightarrow> number" where
  "js_sub x y = double (x - y)"

definition js_mul :: "number \<Rightarrow> number \<Rightarrow> number" where
  "js_mul x y = double (x * y)"

definition js_div :: "number \<Rightarrow> number \<Rightarrow> number" where
  "js_div x y = double (x / y)"

subsection \<open>Maps and records\<close>

text \<open>
  A JavaScript \<open>Map\<close> keeps its entries in insertion order with one entry per key. It is
  an association list whose keys are distinct; \<open>set\<close> on a present key replaces the value
  in place, on a new key it appends, which is \<^const>\<open>AList.update\<close>.
\<close>

type_synonym ('k, 'v) Map = "('k \<times> 'v) list"

definition Map_wf :: "('k, 'v) Map \<Rightarrow> bool" where
  "Map_wf m = distinct (map fst m)"

definition Map_has :: "('k, 'v) Map \<Rightarrow> 'k \<Rightarrow> bool" where
  "Map_has m k = (map_of m k \<noteq> None)"

definition Map_get :: "('k, 'v) Map \<Rightarrow> 'k \<Rightarrow> 'v option" where
  "Map_get m k = map_of m k"

definition Map_set :: "('k, 'v) Map \<Rightarrow> 'k \<Rightarrow> 'v \<Rightarrow> ('k, 'v) Map" where
  "Map_set m k v = AList.update k v m"

definition Map_keys :: "('k, 'v) Map \<Rightarrow> 'k list" where
  "Map_keys m = map fst m"

text \<open>\<open>new Map(entries)\<close>: the entries are set one after the other.\<close>

definition Map_new :: "('k \<times> 'v) list \<Rightarrow> ('k, 'v) Map" where
  "Map_new entries = foldl (\<lambda>m (k, v). Map_set m k v) [] entries"

datatype DeckMode = Tonight | This_weekend

text \<open>
  \<open>created_at\<close> is an ISO timestamp string that the code only ever passes to
  \<open>new Date(...)\<close>. The field holds the result of that parse: the epoch milliseconds, or
  \<open>None\<close> for a string that is not a date (\<open>getTime()\<close> is then NaN).
\<close>

record Rating =
  user_id :: string
  show_id :: string
  enjoyment :: number
  hook :: "number option"
  consistency :: "number option"
  payoff :: "number option"
  heat :: "number option"
  tags :: "string list option"
  created_at :: "int option"

record Profile =
  id_profile :: string
  username :: string

record Follow =
  follower_id :: string
  followee_id :: string

record Show =
  id_show :: string
  title :: string
  poster_path :: "string option"

record ShowRecommendation =
  show_id_rec :: string
  title_rec :: string
  poster_path_rec :: "string option"
  score :: number
  explanation :: string
  tags_rec :: "string list"

section \<open>computeRecommendStats (lib/aggregates)\<close>

record RecommendRow =
  recommend :: "bool option"

record RecommendStats =
  total :: nat
  positive :: nat
  percent :: "int option"

definition computeRecommendStats :: "RecommendRow list \<Rightarrow> RecommendStats" where
  "computeRecommendStats ratings =
     (let validRatings = filter (\<lambda>r. recommend r \<noteq> None) ratings;
          total = length validRatings;
          positive = length (filter (\<lambda>r. recommend r = Some True) validRatings);
          percent = (if total > 0
                     then Some (round (js_mul (js_div (of_nat positive) (of_nat total)) 100))
                     else None)
      in \<lparr>total = total, positive = positive, percent = percent\<rparr>)"

section \<open>calculateSimilarity (lib/reco)\<close>

text \<open>
  The function is given twice. \<open>calculateSimilarity\<close> reads its arithmetic over exact
  numbers: the literal 0.3 is the fraction 3/10 and every operation is exact.
  \<open>calculateSimilarity_double\<close> is the function as it runs, the same text with 0.3 the
  double and every operation the operation of doubles; it is the one that
  \<open>getPersonalizedRecommendations\<close> calls below.
\<close>

definition sharedShows :: "(string, number) Map \<Rightarrow> (string, number) Map \<Rightarrow> string list" where
  "sharedShows userRatings otherRatings =
     filter (\<lambda>showId. Map_has otherRatings showId) (Map_keys userRatings)"


definition calculateSimilarity_double ::
  "(string, number) Map \<Rightarrow> (string, number) Map \<Rightarrow> number" where
  "calculateSimilarity_double userRatings otherRatings =
     (let shared = sharedShows userRatings otherRatings in
      if length shared < 3 then double 0.3
      else
        let totalDiff =
              foldl (\<lambda>acc showId.
                       js_add acc
                         \<bar>js_sub (the (Map_get userRatings showId))
                                 (the (Map_get otherRatings showId))\<bar>)
                    0 shared;
            avgDiff = js_div totalDiff (of_nat (length shared));
            similarity = js_sub 1 (js_div avgDiff 10)
        in max 0 (min 1 similarity))"

section \<open>getRecencyMultiplier (lib/reco)\<close>

text \<open>
  \<open>daysDiff\<close> is \<open>Math.floor((now - ratingDate) / 86400000)\<close>, or NaN (\<open>None\<close>) for an
  invalid date; every comparison with NaN is false. The function does no arithmetic on
  its result: it returns one of the literals 1.3, 1.1, 1.0 and 0.8, here the decimal the
  literal is written as. The arithmetic that takes the result (\<open>accumulate\<close> below) reads
  it as the double of that decimal.
\<close>

definition daysDiff :: "int \<Rightarrow> int option \<Rightarrow> int option" where
  "daysDiff now createdAt =
     (case createdAt of
        None \<Rightarrow> None
      | Some t \<Rightarrow> Some ((now - t) div (1000 * 60 * 60 * 24)))"

definition nan_less :: "int option \<Rightarrow> int \<Rightarrow> bool" where
  "nan_less d n = (case d of None \<Rightarrow> False | Some x \<Rightarrow> x < n)"

definition nan_le :: "int option \<Rightarrow> int \<Rightarrow> bool" where
  "nan_le d n = (case d of None \<Rightarrow> False | Some x \<Rightarrow> x \<le> n)"

definition getRecencyMultiplier :: "int \<Rightarrow> int option \<Rightarrow> DeckMode \<Rightarrow> number" where
  "getRecencyMultiplier now createdAt mode =
     (let d = daysDiff now createdAt in
      if mode = Tonight then
        (if nan_less d 30 then 1.3
         else if nan_le d 180 then 1.0
         else 0.8)
      else
        (if nan_less d 30 then 1.1
         else if nan_le d 180 then 1.0
         else 0.8))"

section \<open>applyDeckModeMultiplier (lib/reco)\<close>

text \<open>
  \<open>rating.hook && rating.hook >= 7\<close>: an absent sub-score and 0 are falsy.
  \<open>showTags?.includes('easy watch')\<close> is undefined, hence falsy, without a tag list.
\<close>

definition truthy_ge7 :: "number option \<Rightarrow> bool" where
  "truthy_ge7 x = (case x of None \<Rightarrow> False | Some v \<Rightarrow> v \<noteq> 0 \<and> v \<ge> 7)"

definition applyDeckModeMultiplier ::
  "number \<Rightarrow> DeckMode \<Rightarrow> 'a Rating_scheme \<Rightarrow> string list option \<Rightarrow> number" where
  "applyDeckModeMultiplier score0 mode rating showTags =
     (if mode = Tonight then
        (let multiplier = 1;
             multiplier = (if truthy_ge7 (hook rating)
                           then js_add multiplier (double 0.1) else multiplier);
             multiplier = (if enjoyment rating \<ge> 7
                           then js_add multiplier (double 0.1) else multiplier);
             multiplier = (if (case showTags of None \<Rightarrow> False
                                | Some ts \<Rightarrow> ''easy watch'' \<in> set ts)
                           then js_add multiplier (double 0.15) else multiplier)
         in js_mul score0 multiplier)
      else
        (let multiplier = 1;
             multiplier = (if truthy_ge7 (payoff rating)
                           then js_add multiplier (double 0.1) else multiplier);
             multiplier = (if truthy_ge7 (consistency rating)
                           then js_add multiplier (double 0.1) else multiplier)
         in js_mul score0 multiplier))"

section \<open>getPersonalizedRecommendations (lib/reco)\<close>

text \<open>
  A query of the hosted store answers with an object \<open>{data, error}\<close>; either part can
  be null. The \<open>error\<close> field holds the message of the error object.
\<close>

record 'a QueryResult =
  data :: "'a list option"
  error :: "string option"

datatype js_error = Error string

definition error_message :: "string option \<Rightarrow> string" where
  "error_message e = (case e of None \<Rightarrow> ''undefined'' | Some m \<Rightarrow> m)"

text \<open>
  The entries of \<open>showRatings\<close>: the rating's fields, the rater's similarity and whether
  the requesting user follows the rater. (The source's object literal leaves \<open>show_id\<close>
  out, it is the key of the map; the record keeps it.)
\<close>

record Contribution = Rating +
  similarity :: number
  isFollowed :: bool

record Contributor =
  user_id_c :: string
  username_c :: string
  weight :: number
  similarity_c :: number
  isFollowed_c :: bool

text \<open>\<open>if (!m.has(k)) m.set(k, []); m.get(k).push(v)\<close>\<close>

definition groupPush :: "('k, 'v list) Map \<Rightarrow> 'k \<Rightarrow> 'v \<Rightarrow> ('k, 'v list) Map" where
  "groupPush m k v =
     (let m1 = (if \<not> Map_has m k then Map_set m k [] else m) in
      case Map_get m1 k of
        None \<Rightarrow> m1
      | Some vs \<Rightarrow> Map_set m1 k (vs @ [v]))"

text \<open>\<open>x || 0\<close> on an optional number.\<close>

definition or0 :: "number option \<Rightarrow> number" where
  "or0 x = (case x of None \<Rightarrow> 0 | Some v \<Rightarrow> v)"

text \<open>The body of the loop over one show's ratings (source lines 772 to 791).\<close>

definition accumulate ::
  "int \<Rightarrow> DeckMode \<Rightarrow> (string, Profile) Map \<Rightarrow> number \<times> number \<times> Contributor list \<Rightarrow>
   Contribution \<Rightarrow> number \<times> number \<times> Contributor list" where
  "accumulate now mode profilesMap acc rating =
     (case acc of (weightedSum, totalWeight, contributors) \<Rightarrow>
        let recencyMultiplier = double (getRecencyMultiplier now (created_at rating) mode);
            baseWeight = js_mul (similarity rating) (double 0.7);
            followBonus = (if isFollowed rating then double 0.3 else 0);
            weight = js_mul (js_add baseWeight followBonus) recencyMultiplier
        in (js_add weightedSum (js_mul (enjoyment rating) weight),
            js_add totalWeight weight,
            (case Map_get profilesMap (user_id rating) of
               None \<Rightarrow> contributors
             | Some profile \<Rightarrow>
                 contributors @
                 [\<lparr>user_id_c = user_id rating, username_c = username profile, weight = weight,
                   similarity_c = similarity rating, isFollowed_c = isFollowed rating\<rparr>])))"

subsection \<open>The explanation string\<close>

function decimal :: "nat \<Rightarrow> string" where
  "decimal n =
     (if n < 10 then [char_of (48 + n)]
      else decimal (n div 10) @ [char_of (48 + n mod 10)])"
  by pat_completeness auto
termination
  by (relation "measure id") auto

text \<open>
  \<open>x.toFixed(2)\<close> for \<open>\<bar>x\<bar> < 10^21\<close>: the integer \<open>n\<close> nearest to \<open>100 * \<bar>x\<bar>\<close> (the larger one
  on a tie), written with a point before its last two digits. The digits are those of the
  exact value of the double.
\<close>

definition toFixed2 :: "number \<Rightarrow> string" where
  "toFixed2 x =
     (let n = nat \<lfloor>\<bar>x\<bar> * 100 + 1 / 2\<rfloor> in
      (if x < 0 then ''-'' else []) @
      decimal (n div 100) @ ''.'' @ decimal (n mod 100 div 10) @ decimal (n mod 10))"

text \<open>The bullet U+2022 of the source's template strings, in UTF-8.\<close>

definition bullet :: string where
  "bullet = [CHR 0xE2, CHR 0x80, CHR 0xA2]"

fun join :: "string \<Rightarrow> string list \<Rightarrow> string" where
  "join sep [] = []"
| "join sep [p] = p"
| "join sep (p # q # ps) = p @ sep @ join sep (q # ps)"

definition explain :: "Contributor list \<Rightarrow> string" where
  "explain contributors =
     (let topContributors = take 2 (sort_key (\<lambda>c. - weight c) contributors) in
      if length topContributors > 0 then
        join ('' '' @ bullet @ '' '')
          (map (\<lambda>contributor.
                  if isFollowed_c contributor
                  then ''You follow @'' @ username_c contributor @ '' '' @ bullet @ '' align '' @
                       toFixed2 (similarity_c contributor)
                  else ''@'' @ username_c contributor @ '' '' @ bullet @ '' align '' @
                       toFixed2 (similarity_c contributor))
               topContributors)
      else ''Based on similar users'')"

subsection \<open>Scoring one show\<close>

definition has_tags :: "'a Rating_scheme \<Rightarrow> bool" where
  "has_tags r = (case tags r of None \<Rightarrow> False | Some ts \<Rightarrow> length ts > 0)"

definition avgRating :: "string \<Rightarrow> number \<Rightarrow> Contribution list \<Rightarrow> Rating" where
  "avgRating showId baseScore ratings =
     \<lparr>user_id = [],
      show_id = showId,
      enjoyment = baseScore,
      hook =
        Some (js_div (foldl (\<lambda>sum r. js_add sum (or0 (hook r))) 0 ratings)
                (of_nat (length ratings))),
      consistency =
        Some (js_div (foldl (\<lambda>sum r. js_add sum (or0 (consistency r))) 0 ratings)
                (of_nat (length ratings))),
      payoff =
        Some (js_div (foldl (\<lambda>sum r. js_add sum (or0 (payoff r))) 0 ratings)
                (of_nat (length ratings))),
      heat =
        Some (js_div (foldl (\<lambda>sum r. js_add sum (or0 (heat r))) 0 ratings)
                (of_nat (length ratings))),
      tags = Some (case find has_tags ratings of
                     None \<Rightarrow> []
                   | Some r \<Rightarrow> (case tags r of None \<Rightarrow> [] | Some ts \<Rightarrow> ts)),
      created_at = created_at (hd ratings)\<rparr>"

text \<open>
  The callback of \<open>showRatings.forEach\<close> (source lines 758 to 848): \<open>None\<close> where it
  returns without pushing a recommendation.
\<close>

definition scoreShow ::
  "int \<Rightarrow> DeckMode \<Rightarrow> (string, Profile) Map \<Rightarrow> (string, Show) Map \<Rightarrow>
   string \<times> Contribution list \<Rightarrow> ShowRecommendation option" where
  "scoreShow now mode profilesMap showsMap entry =
     (case entry of (showId, ratings) \<Rightarrow>
        if length ratings < 2 then None
        else
          (case foldl (accumulate now mode profilesMap) (0, 0, []) ratings of
             (weightedSum, totalWeight, contributors) \<Rightarrow>
               if totalWeight = 0 then None
               else
                 let baseScore = js_div weightedSum totalWeight;
                     avg = avgRating showId baseScore ratings;
                     finalScore = applyDeckModeMultiplier baseScore mode avg (tags avg);
                     clampedScore = max 0 (min 10 finalScore);
                     explanation = explain contributors
                 in (case Map_get showsMap showId of
                       None \<Rightarrow> None
                     | Some show \<Rightarrow>
                         Some \<lparr>show_id_rec = showId, title_rec = title show,
                               poster_path_rec = poster_path show, score = clampedScore,
                               explanation = explanation,
                               tags_rec = (case tags avg of None \<Rightarrow> [] | Some ts \<Rightarrow> ts)\<rparr>)))"

subsection \<open>The pipeline\<close>

definition userRatingsOf :: "string \<Rightarrow> Rating list \<Rightarrow> Rating list" where
  "userRatingsOf userId allRatings = filter (\<lambda>r. user_id r = userId) allRatings"

definition enjoymentMap :: "Rating list \<Rightarrow> (string, number) Map" where
  "enjoymentMap ratings = Map_new (map (\<lambda>r. (show_id r, enjoyment r)) ratings)"

definition userRatingsGroups :: "string \<Rightarrow> Rating list \<Rightarrow> (string, Rating list) Map" where
  "userRatingsGroups userId allRatings =
     foldl (\<lambda>groups rating.
              if user_id rating = userId then groups
              else groupPush groups (user_id rating) rating)
           [] allRatings"

definition similarities :: "string \<Rightarrow> Rating list \<Rightarrow> (string, number) Map" where
  "similarities userId allRatings =
     foldl (\<lambda>sims (otherUserId, ratings).
              Map_set sims otherUserId
                (calculateSimilarity_double (enjoymentMap (userRatingsOf userId allRatings))
                   (enjoymentMap ratings)))
           [] (userRatingsGroups userId allRatings)"

text \<open>\<open>similarities.get(rating.user_id) || 0\<close>\<close>

definition similarityTo :: "(string, number) Map \<Rightarrow> string \<Rightarrow> number" where
  "similarityTo sims u = or0 (Map_get sims u)"

text \<open>The object pushed onto a show's list (source lines 740 to 751).\<close>

definition contribution :: "Rating \<Rightarrow> number \<Rightarrow> bool \<Rightarrow> Contribution" where
  "contribution rating sim followed =
     \<lparr>user_id = user_id rating, show_id = show_id rating,
      enjoyment = enjoyment rating, hook = hook rating,
      consistency = consistency rating, payoff = payoff rating,
      heat = heat rating, tags = tags rating,
      created_at = created_at rating,
      similarity = sim,
      isFollowed = followed\<rparr>"

definition showRatings ::
  "string \<Rightarrow> string set \<Rightarrow> string set \<Rightarrow> Rating list \<Rightarrow> (string, Contribution list) Map" where
  "showRatings userId excludeShowIds followedSet allRatings =
     (let userShowIds = set (map show_id (userRatingsOf userId allRatings));
          sims = similarities userId allRatings
      in foldl (\<lambda>groups rating.
                  if user_id rating = userId then groups
                  else if show_id rating \<in> userShowIds then groups
                  else if show_id rating \<in> excludeShowIds then groups
                  else
                    let similarity = similarityTo sims (user_id rating) in
                    if similarity = 0 then groups
                    else groupPush groups (show_id rating)
                           (contribution rating similarity (user_id rating \<in> followedSet)))
               [] allRatings)"

text \<open>
  \<open>new Set(follows && !followsError ? follows.map((f) => f.followee_id) : [])\<close>
\<close>

definition followedSetOf :: "Follow QueryResult \<Rightarrow> string set" where
  "followedSetOf followsQ =
     (case (data followsQ, error followsQ) of
        (Some follows, None) \<Rightarrow> set (map followee_id follows)
      | _ \<Rightarrow> {})"

text \<open>
  The four reads come first; a failed read of ratings, profiles or shows throws, a failed
  read of follows leaves the followed set empty. \<open>now\<close> is the clock, read once for the
  request. The comparator of the final sort, \<open>b.score - a.score\<close>, has the sign of the
  exact difference, so the sort is the stable sort by descending score.
\<close>

definition getPersonalizedRecommendations ::
  "Rating QueryResult \<Rightarrow> Profile QueryResult \<Rightarrow> Follow QueryResult \<Rightarrow> Show QueryResult \<Rightarrow>
   int \<Rightarrow> string \<Rightarrow> DeckMode \<Rightarrow> string set \<Rightarrow> js_error + ShowRecommendation list" where
  "getPersonalizedRecommendations ratingsQ profilesQ followsQ showsQ now userId mode excludeShowIds =
     (case (error ratingsQ, data ratingsQ) of
        (None, Some allRatings) \<Rightarrow>
          (case (error profilesQ, data profilesQ) of
             (None, Some profiles) \<Rightarrow>
               (let followedSet = followedSetOf followsQ
                in case (error showsQ, data showsQ) of
                     (None, Some shows) \<Rightarrow>
                       (let showsMap = Map_new (map (\<lambda>s. (id_show s, s)) shows);
                            profilesMap = Map_new (map (\<lambda>p. (id_profile p, p)) profiles);
                            userRatings = userRatingsOf userId allRatings
                        in if length userRatings < 3 then Inr []
                           else
                             let recommendations =
                                   List.map_filter (scoreShow now mode profilesMap showsMap)
                                     (showRatings userId excludeShowIds followedSet allRatings)
                             in Inr (sort_key (\<lambda>r. - score r) recommendations))
                   | _ \<Rightarrow> Inl (Error (''Failed to fetch shows: '' @ error_message (error showsQ))))
           | _ \<Rightarrow> Inl (Error (''Failed to fetch profiles: '' @ error_message (error profilesQ))))
      | _ \<Rightarrow> Inl (Error (''Failed to fetch ratings: '' @ error_message (error ratingsQ))))"

section \<open>getHomePicks (lib/homePicks)\<close>

record HomePick =
  show_id_pick :: string
  title_pick :: string
  poster_path_pick :: "string option"
  score_pick :: number
  followingPercent :: "int option"
  overallPercent :: "int option"
  explanation_pick :: string
  tags_pick :: "string list"

text \<open>The fields of a catalog entry of the trending source that the deck reads.\<close>

record TMDBShow =
  id_tmdb :: int
  title_tmdb :: "string option"
  name_tmdb :: "string option"
  poster_path_tmdb :: "string option"

text \<open>\<open>id.toString()\<close> of an integer identifier.\<close>

definition toString :: "int \<Rightarrow> string" where
  "toString i = (if i < 0 then ''-'' else []) @ decimal (nat \<bar>i\<bar>)"

text \<open>A string that is neither absent nor empty is truthy.\<close>

definition truthy_string :: "string option \<Rightarrow> bool" where
  "truthy_string s = (case s of None \<Rightarrow> False | Some t \<Rightarrow> t \<noteq> [])"

text \<open>\<open>show.title || show.name || 'Unknown'\<close>\<close>

definition displayTitle :: "TMDBShow \<Rightarrow> string" where
  "displayTitle show =
     (if truthy_string (title_tmdb show) then the (title_tmdb show)
      else if truthy_string (name_tmdb show) then the (name_tmdb show)
      else ''Unknown'')"

text \<open>Source lines 177 to 182: the first pick of each show identifier is kept.\<close>

definition combinedPicks :: "HomePick list \<Rightarrow> (string, HomePick) Map" where
  "combinedPicks candidates =
     foldl (\<lambda>combined pick.
              if \<not> Map_has combined (show_id_pick pick)
              then Map_set combined (show_id_pick pick) pick
              else combined)
           [] candidates"

text \<open>Source lines 190 to 192 and 209 to 218.\<close>

definition trendingPicks :: "string set \<Rightarrow> TMDBShow list \<Rightarrow> HomePick list" where
  "trendingPicks excludedIds results =
     map (\<lambda>show.
            \<lparr>show_id_pick = toString (id_tmdb show),
             title_pick = displayTitle show,
             poster_path_pick = poster_path_tmdb show,
             score_pick = 7,
             followingPercent = None,
             overallPercent = None,
             explanation_pick = ''Trending now'',
             tags_pick = []\<rparr>)
         (take 10
            (filter (\<lambda>show. truthy_string (poster_path_tmdb show) \<and>
                             toString (id_tmdb show) \<notin> excludedIds)
                    results))"

text \<open>Source lines 221 to 225.\<close>

definition addTrending :: "HomePick list \<Rightarrow> HomePick list \<Rightarrow> HomePick list" where
  "addTrending allPicks picks =
     foldl (\<lambda>allPicks pick.
              if \<not> list_ex (\<lambda>p. show_id_pick p = show_id_pick pick) allPicks
              then allPicks @ [pick]
              else allPicks)
           allPicks picks"

text \<open>
  The composition of the deck, source lines 176 to 243. \<open>candidateFromFollows\<close> and
  \<open>candidateFromCommunity\<close> are the values the two \<open>try\<close> blocks of tier A and tier B
  leave in the variables of these names (lines 59 to 174), \<open>excludedIds\<close> is the set built
  in lines 35 to 55, and \<open>trending\<close> is what \<open>getTrendingShows('day')\<close> answers: its
  results, or the error it throws, which the \<open>catch\<close> of tier C logs (nothing has been
  pushed onto \<open>allPicks\<close> by then). Writing the trending shows through to the cache changes
  nothing in the result (a failed write is caught). The property proved of the deck holds
  for all values of these four arguments, hence for whatever the reads of tiers A and B
  have produced.
\<close>

definition getHomePicks ::
  "HomePick list \<Rightarrow> HomePick list \<Rightarrow> string set \<Rightarrow> js_error + TMDBShow list \<Rightarrow> HomePick list" where
  "getHomePicks candidateFromFollows candidateFromCommunity excludedIds trending =
     (let combined = combinedPicks (candidateFromFollows @ candidateFromCommunity);
          allPicks = map snd combined;
          allPicks =
            (if length allPicks < 3 then
               (case trending of
                  Inl e \<Rightarrow> allPicks
                | Inr results \<Rightarrow> addTrending allPicks (trendingPicks excludedIds results))
             else allPicks)
      in take 10 allPicks)"

section \<open>Vocabulary of the specification\<close>

text \<open>
  The definitions of this section are not code of the repository: they say in HOL what
  the sentences of the specification talk about, so that the theorems below can compare
  the code with them.
\<close>

text \<open>The shows both users have rated, and the mean absolute difference over them.\<close>

definition sharedKeys :: "(string, number) Map \<Rightarrow> (string, number) Map \<Rightarrow> string set" where
  "sharedKeys a b = set (Map_keys a) \<inter> set (Map_keys b)"



text \<open>
  Ratings as the application writes them: whole numbers (its sliders run from 0 to 10 in
  steps of 1). The bounds, \<open>2^20\<close> on a rating and \<open>2^32\<close> on the entries of a map, keep
  every sum of absolute differences below \<open>2^53\<close>, where doubles hold whole numbers
  exactly.
\<close>

definition integerRatings :: "(string, number) Map \<Rightarrow> bool" where
  "integerRatings m \<longleftrightarrow>
     list_all (\<lambda>entry. of_int \<lfloor>snd entry\<rfloor> = snd entry \<and> \<bar>snd entry\<bar> \<le> 2 ^ 20) m
     \<and> length m \<le> 2 ^ 32"

text \<open>The absolute difference of two whole-number ratings of a show, as an integer.\<close>

definition intDiff :: "(string, number) Map \<Rightarrow> (string, number) Map \<Rightarrow> string \<Rightarrow> int" where
  "intDiff a b k = \<bar>\<lfloor>the (Map_get a k)\<rfloor> - \<lfloor>the (Map_get b k)\<rfloor>\<bar>"

text \<open>The age of a rating in whole days, floored.\<close>

definition ageInDays :: "int \<Rightarrow> int \<Rightarrow> int" where
  "ageInDays now t = (now - t) div 86400000"

text \<open>
  The similarity of the requesting user to another user: \<open>calculateSimilarity\<close>, as it
  runs, on the two users' show-to-enjoyment maps.
\<close>

definition similarityOf :: "string \<Rightarrow> Rating list \<Rightarrow> string \<Rightarrow> number" where
  "similarityOf userId allRatings other =
     calculateSimilarity_double (enjoymentMap (userRatingsOf userId allRatings))
       (enjoymentMap (userRatingsOf other allRatings))"

text \<open>
  The candidate pool of the specification (section 4.4): the ratings of a show by other
  users, when the requesting user has not rated the show and it is not excluded.
\<close>

definition candidates :: "string \<Rightarrow> string set \<Rightarrow> Rating list \<Rightarrow> string \<Rightarrow> Rating list" where
  "candidates userId excludeShowIds allRatings showId =
     filter (\<lambda>r. show_id r = showId
                 \<and> user_id r \<noteq> userId
                 \<and> showId \<notin> show_id ` set (userRatingsOf userId allRatings)
                 \<and> showId \<notin> excludeShowIds)
            allRatings"

text \<open>
  The contributing ratings of a show in the code: the candidate ratings whose rater does
  not have similarity 0 to the requesting user.
\<close>

definition contributing :: "string \<Rightarrow> string set \<Rightarrow> Rating list \<Rightarrow> string \<Rightarrow> Rating list" where
  "contributing userId excludeShowIds allRatings showId =
     filter (\<lambda>r. show_id r = showId
                 \<and> user_id r \<noteq> userId
                 \<and> showId \<notin> show_id ` set (userRatingsOf userId allRatings)
                 \<and> showId \<notin> excludeShowIds
                 \<and> similarityOf userId allRatings (user_id r) \<noteq> 0)
            allRatings"

text \<open>
  The weight of a rating, as the specification gives it, in the arithmetic of doubles:
  \<open>(similarity * 0.7 + (isFollowed ? 0.3 : 0)) * recencyMultiplier\<close>.
\<close>

definition ratingWeight ::
  "int \<Rightarrow> DeckMode \<Rightarrow> string \<Rightarrow> string set \<Rightarrow> Rating list \<Rightarrow> Rating \<Rightarrow> number" where
  "ratingWeight now mode userId followedSet allRatings r =
     js_mul
       (js_add (js_mul (similarityOf userId allRatings (user_id r)) (double 0.7))
          (if user_id r \<in> followedSet then double 0.3 else 0))
       (double (getRecencyMultiplier now (created_at r) mode))"

text \<open>
  The sums of \<open>enjoyment * weight\<close> and of \<open>weight\<close> over a list of ratings, added up from
  0 in the order of the list.
\<close>

definition weightedSumOver ::
  "int \<Rightarrow> DeckMode \<Rightarrow> string \<Rightarrow> string set \<Rightarrow> Rating list \<Rightarrow> Rating list \<Rightarrow> number" where
  "weightedSumOver now mode userId followedSet allRatings rs =
     foldl (\<lambda>s r. js_add s (js_mul (enjoyment r)
                                (ratingWeight now mode userId followedSet allRatings r)))
           0 rs"

definition totalWeightOver ::
  "int \<Rightarrow> DeckMode \<Rightarrow> string \<Rightarrow> string set \<Rightarrow> Rating list \<Rightarrow> Rating list \<Rightarrow> number" where
  "totalWeightOver now mode userId followedSet allRatings rs =
     foldl (\<lambda>s r. js_add s (ratingWeight now mode userId followedSet allRatings r)) 0 rs"

definition weightedSumOf ::
  "int \<Rightarrow> DeckMode \<Rightarrow> string \<Rightarrow> string set \<Rightarrow> string set \<Rightarrow> Rating list \<Rightarrow> string \<Rightarrow> number" where
  "weightedSumOf now mode userId excludeShowIds followedSet allRatings showId =
     weightedSumOver now mode userId followedSet allRatings
       (contributing userId excludeShowIds allRatings showId)"

definition totalWeightOf ::
  "int \<Rightarrow> DeckMode \<Rightarrow> string \<Rightarrow> string set \<Rightarrow> string set \<Rightarrow> Rating list \<Rightarrow> string \<Rightarrow> number" where
  "totalWeightOf now mode userId excludeShowIds followedSet allRatings showId =
     totalWeightOver now mode userId followedSet allRatings
       (contributing userId excludeShowIds allRatings showId)"

text \<open>The base score of a show: \<open>weightedSum / totalWeight\<close>.\<close>

definition baseScoreOf ::
  "int \<Rightarrow> DeckMode \<Rightarrow> string \<Rightarrow> string set \<Rightarrow> string set \<Rightarrow> Rating list \<Rightarrow> string \<Rightarrow> number" where
  "baseScoreOf now mode userId excludeShowIds followedSet allRatings showId =
     js_div (weightedSumOf now mode userId excludeShowIds followedSet allRatings showId)
       (totalWeightOf now mode userId excludeShowIds followedSet allRatings showId)"

text \<open>
  The total weight of a show as claim C3 words it: every rating of the candidate pool
  contributes its weight, also the rating of a rater of similarity 0.
\<close>

definition claimedTotalWeightOf ::
  "int \<Rightarrow> DeckMode \<Rightarrow> string \<Rightarrow> string set \<Rightarrow> string set \<Rightarrow> Rating list \<Rightarrow> string \<Rightarrow> number" where
  "claimedTotalWeightOf now mode userId excludeShowIds followedSet allRatings showId =
     totalWeightOver now mode userId followedSet allRatings
       (candidates userId excludeShowIds allRatings showId)"

text \<open>The contributing ratings of a show with the similarity and follow flag of each rater.\<close>

definition contributionsOf ::
  "string \<Rightarrow> string set \<Rightarrow> string set \<Rightarrow> Rating list \<Rightarrow> string \<Rightarrow> Contribution list" where
  "contributionsOf userId excludeShowIds followedSet allRatings showId =
     map (\<lambda>r. contribution r (similarityOf userId allRatings (user_id r))
                 (user_id r \<in> followedSet))
         (contributing userId excludeShowIds allRatings showId)"

text \<open>
  The users other than the requesting user who have rated a show: the raters the
  minimum-raters gate of the specification counts.
\<close>

definition otherRaters :: "string \<Rightarrow> Rating list \<Rightarrow> string \<Rightarrow> string set" where
  "otherRaters userId allRatings showId =
     set (map user_id (filter (\<lambda>r. show_id r = showId \<and> user_id r \<noteq> userId) allRatings))"

text \<open>The raters of the contributing ratings of a show.\<close>

definition contributingRaters ::
  "string \<Rightarrow> string set \<Rightarrow> Rating list \<Rightarrow> string \<Rightarrow> string set" where
  "contributingRaters userId excludeShowIds allRatings showId =
     set (map user_id (contributing userId excludeShowIds allRatings showId))"

text \<open>The invariant of the ratings table: at most one rating per rater and show.\<close>

definition oneRatingPerUserAndShow :: "Rating list \<Rightarrow> bool" where
  "oneRatingPerUserAndShow allRatings =
     distinct (map (\<lambda>r. (user_id r, show_id r)) allRatings)"

text \<open>
  The averages and the tag list that the code puts into \<open>avgRating\<close>: the sum of a
  sub-score over the contributors, an absent sub-score counting as 0, divided by the number
  of contributors, and the tag list of the first contributor that has tags.
\<close>

definition avgSubScore :: "(Rating \<Rightarrow> number option) \<Rightarrow> Rating list \<Rightarrow> number" where
  "avgSubScore field rs =
     js_div (foldl (\<lambda>sum r. js_add sum (or0 (field r))) 0 rs) (of_nat (length rs))"

definition firstTags :: "Rating list \<Rightarrow> string list" where
  "firstTags rs =
     (case find has_tags rs of
        None \<Rightarrow> []
      | Some r \<Rightarrow> (case tags r of None \<Rightarrow> [] | Some ts \<Rightarrow> ts))"

text \<open>
  The content multiplier as the code computes it: the enjoyment bonus is decided by the
  base score, and the bonuses are added one after the other in the arithmetic of doubles.
\<close>

definition deckMultiplier :: "DeckMode \<Rightarrow> number \<Rightarrow> Rating list \<Rightarrow> number" where
  "deckMultiplier mode baseScore rs =
     (case mode of
        Tonight \<Rightarrow>
          (let m = 1;
               m = (if 7 \<le> avgSubScore hook rs then js_add m (double 0.1) else m);
               m = (if 7 \<le> baseScore then js_add m (double 0.1) else m);
               m = (if ''easy watch'' \<in> set (firstTags rs) then js_add m (double 0.15) else m)
           in m)
      | This_weekend \<Rightarrow>
          (let m = 1;
               m = (if 7 \<le> avgSubScore payoff rs then js_add m (double 0.1) else m);
               m = (if 7 \<le> avgSubScore consistency rs then js_add m (double 0.1) else m)
           in m))"

text \<open>
  The content multiplier as claim C6 words it. The average of a sub-score across the
  contributors is the mean of the sub-scores they gave (there is none when no contributor
  gave one), the average enjoyment is the mean of their enjoyment, and the tag set of the
  show is made of the tags of all its contributors.
\<close>

definition claimedAverage :: "(Rating \<Rightarrow> number option) \<Rightarrow> Rating list \<Rightarrow> number option" where
  "claimedAverage field rs =
     (let given = List.map_filter field rs in
      if given = [] then None else Some (sum_list given / of_nat (length given)))"

definition atLeast7 :: "number option \<Rightarrow> bool" where
  "atLeast7 x = (case x of None \<Rightarrow> False | Some v \<Rightarrow> 7 \<le> v)"

definition meanEnjoyment :: "Rating list \<Rightarrow> number" where
  "meanEnjoyment rs = (\<Sum>r\<leftarrow>rs. enjoyment r) / of_nat (length rs)"

definition allTags :: "Rating list \<Rightarrow> string list" where
  "allTags rs = concat (List.map_filter tags rs)"

definition claimedMultiplier :: "DeckMode \<Rightarrow> Rating list \<Rightarrow> number" where
  "claimedMultiplier mode rs =
     (case mode of
        Tonight \<Rightarrow>
          1.0 + (if atLeast7 (claimedAverage hook rs) then 0.1 else 0)
              + (if 7 \<le> meanEnjoyment rs then 0.1 else 0)
              + (if ''easy watch'' \<in> set (allTags rs) then 0.15 else 0)
      | This_weekend \<Rightarrow>
          1.0 + (if atLeast7 (claimedAverage payoff rs) then 0.1 else 0)
              + (if atLeast7 (claimedAverage consistency rs) then 0.1 else 0))"

text \<open>The picks of tier C: none when the trending source fails.\<close>

definition tierC :: "string set \<Rightarrow> js_error + TMDBShow list \<Rightarrow> HomePick list" where
  "tierC excludedIds trending =
     (case trending of Inl e \<Rightarrow> [] | Inr results \<Rightarrow> trendingPicks excludedIds results)"

text \<open>A read that succeeded with the given rows.\<close>

definition fetched :: "'a list \<Rightarrow> 'a QueryResult" where
  "fetched rows = \<lparr>data = Some rows, error = None\<rparr>"

text \<open>The grouping that the two \<open>forEach\<close> loops over \<open>allRatings\<close> build.\<close>

definition grouped :: "('a \<Rightarrow> bool) \<Rightarrow> ('a \<Rightarrow> 'k) \<Rightarrow> ('a \<Rightarrow> 'v) \<Rightarrow> 'a list \<Rightarrow> ('k, 'v list) Map" where
  "grouped P key f xs = foldl (\<lambda>g r. if P r then groupPush g (key r) (f r) else g) [] xs"

definition contributes :: "string \<Rightarrow> string set \<Rightarrow> Rating list \<Rightarrow> Rating \<Rightarrow> bool" where
  "contributes userId excludeShowIds allRatings r \<longleftrightarrow>
     user_id r \<noteq> userId
     \<and> show_id r \<notin> set (map show_id (userRatingsOf userId allRatings))
     \<and> show_id r \<notin> excludeShowIds
     \<and> similarityTo (similarities userId allRatings) (user_id r) \<noteq> 0"

text \<open>The list of all picks before the final \<open>slice(0, 10)\<close>.\<close>

definition allPicksOf ::
  "HomePick list \<Rightarrow> HomePick list \<Rightarrow> string set \<Rightarrow> js_error + TMDBShow list \<Rightarrow> HomePick list" where
  "allPicksOf a b ex tr =
     (let allPicks = map snd (combinedPicks (a @ b)) in
      if length allPicks < 3 then
        (case tr of
           Inl e \<Rightarrow> allPicks
         | Inr results \<Rightarrow> addTrending allPicks (trendingPicks ex results))
      else allPicks)"

section \<open>Example data\<close>

text \<open>
  A small ratings table on which the theorems below are instantiated. User \<open>u\<close> has
  rated \<open>a\<close>, \<open>b\<close> and \<open>c\<close>; \<open>v\<close> agrees with \<open>u\<close> on all three and has rated \<open>x\<close>, \<open>y\<close>
  and \<open>z\<close>; \<open>w\<close>, whom \<open>u\<close> follows, has rated \<open>x\<close> and \<open>y\<close>; \<open>t\<close> has rated \<open>x\<close>. All
  ratings are 100 days old.
\<close>

definition demo_rating :: "string \<Rightarrow> string \<Rightarrow> number \<Rightarrow> Rating" where
  "demo_rating u s e =
     \<lparr>user_id = u, show_id = s, enjoyment = e, hook = None, consistency = None,
      payoff = None, heat = None, tags = None, created_at = Some 0\<rparr>"

definition demo_ratings :: "Rating list" where
  "demo_ratings =
     [demo_rating ''u'' ''a'' 8, demo_rating ''u'' ''b'' 6, demo_rating ''u'' ''c'' 7,
      demo_rating ''v'' ''a'' 8, demo_rating ''v'' ''b'' 6, demo_rating ''v'' ''c'' 7,
      demo_rating ''v'' ''x'' 9, demo_rating ''v'' ''y'' 5, demo_rating ''v'' ''z'' 9,
      demo_rating ''w'' ''x'' 7, demo_rating ''w'' ''y'' 10, demo_rating ''t'' ''x'' 8]"

definition demo_shows :: "Show list" where
  "demo_shows =
     map (\<lambda>s. \<lparr>id_show = s, title = s, poster_path = None\<rparr>)
       [''a'', ''b'', ''c'', ''x'', ''y'', ''z'']"

definition demo_profiles :: "Profile list" where
  "demo_profiles = map (\<lambda>s. \<lparr>id_profile = s, username = s\<rparr>) [''u'', ''v'', ''w'', ''t'']"

definition demo_follows :: "Follow list" where
  "demo_follows = [\<lparr>follower_id = ''u'', followee_id = ''w''\<rparr>]"

definition demo_now :: int where
  "demo_now = 100 * 86400000"

text \<open>
  A second table: \<open>v\<close>, whom \<open>u\<close> follows, gives \<open>x\<close> an enjoyment of 5, \<open>w\<close> gives it 10;
  both share no show with \<open>u\<close>.
\<close>

definition demo_ratings2 :: "Rating list" where
  "demo_ratings2 =
     [demo_rating ''u'' ''a'' 8, demo_rating ''u'' ''b'' 6, demo_rating ''u'' ''c'' 7,
      demo_rating ''v'' ''x'' 5, demo_rating ''w'' ''x'' 10]"

definition demo_follows2 :: "Follow list" where
  "demo_follows2 = [\<lparr>follower_id = ''u'', followee_id = ''v''\<rparr>]"

text \<open>
  A third table: \<open>w\<close>, whom \<open>u\<close> follows, gives 10 where \<open>u\<close> gives 0 on the three shows
  they share, so that the similarity of \<open>w\<close> to \<open>u\<close> is 0; \<open>w\<close> and \<open>v\<close> have rated \<open>y\<close>.
\<close>

definition demo_ratings3 :: "Rating list" where
  "demo_ratings3 =
     [demo_rating ''u'' ''a'' 0, demo_rating ''u'' ''b'' 0, demo_rating ''u'' ''c'' 0,
      demo_rating ''w'' ''a'' 10, demo_rating ''w'' ''b'' 10, demo_rating ''w'' ''c'' 10,
      demo_rating ''w'' ''y'' 8, demo_rating ''v'' ''y'' 6]"

text \<open>
  Two more tables. In the fourth \<open>v\<close> gives \<open>x\<close> a hook of 10 and \<open>w\<close> gives it none; in the
  fifth \<open>v\<close> tags \<open>x\<close> as slow burn and \<open>w\<close> tags it as easy watch. Both give \<open>x\<close> an
  enjoyment of 5.
\<close>

definition demo_ratings4 :: "Rating list" where
  "demo_ratings4 =
     [demo_rating ''u'' ''a'' 8, demo_rating ''u'' ''b'' 6, demo_rating ''u'' ''c'' 7,
      (demo_rating ''v'' ''x'' 5)\<lparr>hook := Some 10\<rparr>, demo_rating ''w'' ''x'' 5]"

definition demo_ratings5 :: "Rating list" where
  "demo_ratings5 =
     [demo_rating ''u'' ''a'' 8, demo_rating ''u'' ''b'' 6, demo_rating ''u'' ''c'' 7,
      (demo_rating ''v'' ''x'' 5)\<lparr>tags := Some [''slow burn'']\<rparr>,
      (demo_rating ''w'' ''x'' 5)\<lparr>tags := Some [''easy watch'']\<rparr>]"

text \<open>Forty recommend flags, 23 of them true.\<close>

definition demo_flags :: "RecommendRow list" where
  "demo_flags =
     replicate 23 \<lparr>recommend = Some True\<rparr> @ replicate 17 \<lparr>recommend = Some False\<rparr>"

text \<open>
  Two maps with fractional ratings, and the same shows in the opposite order with a rating
  of 0.
\<close>

definition demo_map1 :: "(string, number) Map" where
  "demo_map1 = [(''a'', double 0.1), (''b'', double 0.5), (''c'', double 7.7)]"

definition demo_map2 :: "(string, number) Map" where
  "demo_map2 = [(''c'', 0), (''b'', 0), (''a'', 0)]"

text \<open>Picks for the deck: tier A and tier B overlap on \<open>x\<close>, the trending source on \<open>1\<close>.\<close>

definition demo_pick :: "string \<Rightarrow> string \<Rightarrow> HomePick" where
  "demo_pick s why =
     \<lparr>show_id_pick = s, title_pick = s, poster_path_pick = None, score_pick = 7.5,
      followingPercent = None, overallPercent = None, explanation_pick = why, tags_pick = []\<rparr>"

definition demo_trending :: "TMDBShow list" where
  "demo_trending =
     [\<lparr>id_tmdb = 1, title_tmdb = Some ''One'', name_tmdb = None, poster_path_tmdb = Some ''/1.jpg''\<rparr>,
      \<lparr>id_tmdb = 1, title_tmdb = Some ''One again'', name_tmdb = None,
       poster_path_tmdb = Some ''/1b.jpg''\<rparr>,
      \<lparr>id_tmdb = 2, title_tmdb = None, name_tmdb = Some ''Two'', poster_path_tmdb = None\<rparr>,
      \<lparr>id_tmdb = 3, title_tmdb = None, name_tmdb = Some ''Three'',
       poster_path_tmdb = Some ''/3.jpg''\<rparr>]"

section \<open>Properties of the arithmetic of doubles\<close>

lemma two_powi_nat: "0 \<le> k \<Longrightarrow> (2::rat) ^ nat k = 2 powi k"
  by (simp add: power_int_def)

lemma binexp_bounds:
  assumes "0 < x"
  shows "2 powi binexp x \<le> x \<and> x < 2 powi (binexp x + 1)"
proof -
  obtain a b where q: "quotient_of x = (a, b)"
    by (cases "quotient_of x")
  then have b: "0 < b" and x: "x = of_int a / of_int b"
    using quotient_of_denom_pos [OF q] quotient_of_div [OF q] by auto
  from assms b x have a: "0 < a"
    by (simp add: zero_less_divide_iff)
  define la lb where "la = bitlen a" and "lb = bitlen b"
  from bitlen_bounds [OF a] have a1: "(2::rat) ^ nat (la - 1) \<le> of_int a"
    and a2: "of_int a < (2::rat) ^ nat la"
    unfolding la_def
    by (metis of_int_le_iff of_int_numeral of_int_power, metis of_int_less_iff of_int_numeral of_int_power)
  from bitlen_bounds [OF b] have b1: "(2::rat) ^ nat (lb - 1) \<le> of_int b"
    and b2: "of_int b < (2::rat) ^ nat lb"
    unfolding lb_def
    by (metis of_int_le_iff of_int_numeral of_int_power, metis of_int_less_iff of_int_numeral of_int_power)
  have la: "1 \<le> la" and lb: "1 \<le> lb"
    unfolding la_def lb_def using a b bitlen_nonneg bitlen_eq_zero_iff
    by (smt (verit))+
  have a1': "2 powi (la - 1) \<le> (of_int a :: rat)" and a2': "(of_int a :: rat) < 2 powi la"
    using a1 a2 la by (simp_all add: two_powi_nat)
  have b1': "2 powi (lb - 1) \<le> (of_int b :: rat)" and b2': "(of_int b :: rat) < 2 powi lb"
    using b1 b2 lb by (simp_all add: two_powi_nat)
  have bpos: "(0::rat) < of_int b"
    using b by simp
  have up: "x < 2 powi (la - lb + 1)"
  proof -
    have "of_int a < (2::rat) powi la" by (rule a2')
    also have "\<dots> = 2 powi (la - lb + 1) * 2 powi (lb - 1)"
      by (simp add: power_int_add [symmetric])
    also have "\<dots> \<le> 2 powi (la - lb + 1) * of_int b"
      using b1' by (intro mult_left_mono) simp_all
    finally show ?thesis
      unfolding x using bpos by (simp add: pos_divide_less_eq)
  qed
  have low: "2 powi (la - lb - 1) < x"
  proof -
    have "2 powi (la - lb - 1) * of_int b < 2 powi (la - lb - 1) * (2::rat) powi lb"
      using b2' by (intro mult_strict_left_mono) simp_all
    also have "\<dots> = 2 powi (la - 1)"
      by (simp add: power_int_add [symmetric])
    also have "\<dots> \<le> of_int a" by (rule a1')
    finally show ?thesis
      unfolding x using bpos by (simp add: pos_less_divide_eq)
  qed
  show ?thesis
  proof (cases "x < 2 powi (la - lb)")
    case True
    then have "binexp x = la - lb - 1"
      by (simp add: binexp_def q la_def lb_def Let_def)
    with True low show ?thesis
      by simp
  next
    case False
    then have "binexp x = la - lb"
      by (simp add: binexp_def q la_def lb_def Let_def)
    with False up show ?thesis
      by simp
  qed
qed

lemma round_even_of_int: "round_even (of_int m) = m"
  by (simp add: round_even_def)

lemma floor_le_round_even: "\<lfloor>y\<rfloor> \<le> round_even y"
  by (simp add: round_even_def Let_def)

lemma double_0: "double 0 = 0"
  by (simp add: double_def)

lemma double_minus: "double (- x) = - double x"
  by (simp add: double_def)

lemma double_pos_positive:
  assumes "0 < x"
  shows "0 < double_pos x"
proof -
  define q :: rat where "q = 2 powi (binexp x - 52)"
  have q: "0 < q" by (simp add: q_def)
  from binexp_bounds [OF assms] have "2 powi binexp x \<le> x" by simp
  then have "2 powi binexp x / q \<le> x / q"
    using q by (simp add: divide_right_mono)
  moreover have "2 powi binexp x / q = 2 powi 52"
    unfolding q_def by (simp add: power_int_diff)
  ultimately have "1 \<le> x / q"
    by simp
  then have "1 \<le> \<lfloor>x / q\<rfloor>"
    by (simp add: le_floor_iff)
  with floor_le_round_even [of "x / q"] have "0 < round_even (x / q)"
    by linarith
  with q show ?thesis
    by (simp add: double_pos_def q_def [symmetric] Let_def)
qed

lemma double_positive: "0 < x \<Longrightarrow> 0 < double x"
  by (simp add: double_def double_pos_positive)

lemma double_nonneg: "0 \<le> x \<Longrightarrow> 0 \<le> double x"
  using double_positive [of x] by (cases "x = 0") (simp_all add: double_0 less_imp_le)

lemma double_pos_exact:
  assumes "x / 2 powi (binexp x - 52) = of_int m"
  shows "double_pos x = x"
proof -
  have "double_pos x = of_int m * 2 powi (binexp x - 52)"
    by (simp add: double_pos_def Let_def assms round_even_of_int)
  also have "\<dots> = x"
    using assms by (simp add: field_simps)
  finally show ?thesis .
qed

lemma double_pos_of_int:
  assumes "0 < k" and "k \<le> 2 ^ 53"
  shows "double_pos (of_int k) = of_int k"
proof -
  let ?x = "of_int k :: rat"
  define e where "e = binexp ?x"
  have xpos: "0 < ?x" using assms by simp
  from binexp_bounds [OF xpos] have lo: "2 powi e \<le> ?x" and hi: "?x < 2 powi (e + 1)"
    by (simp_all add: e_def)
  have "1 \<le> ?x" using assms by simp
  with hi have "(2::rat) powi 0 < 2 powi (e + 1)" by simp
  then have e0: "0 \<le> e"
    using power_int_increasing [of "e + 1" 0 "2::rat"] by (cases "0 \<le> e") simp_all
  have "?x \<le> 2 powi 53" using assms(2)
    by (metis of_int_le_iff of_int_numeral of_int_power power_int_numeral)
  with lo have "(2::rat) powi e \<le> 2 powi 53" by simp
  then have e53: "e \<le> 53"
    using power_int_strict_increasing [of 53 e "2::rat"] by (cases "e \<le> 53") simp_all
  show ?thesis
  proof (cases "e \<le> 52")
    case True
    have "?x / 2 powi (e - 52) = ?x * 2 powi (52 - e)"
      by (simp add: power_int_diff field_simps)
    also have "\<dots> = ?x * 2 ^ nat (52 - e)"
      using True by (simp add: power_int_nonneg_exp)
    also have "\<dots> = of_int (k * 2 ^ nat (52 - e))"
      by simp
    finally show ?thesis
      unfolding e_def by (rule double_pos_exact)
  next
    case False
    with e53 have e: "e = 53" by simp
    with lo have "2 ^ 53 \<le> k"
      by (metis of_int_le_iff of_int_numeral of_int_power power_int_numeral)
    with assms(2) have k: "k = 2 ^ 53" by simp
    have "?x / 2 powi (e - 52) = of_int (2 ^ 52)"
      unfolding e k by simp
    then show ?thesis
      unfolding e_def by (rule double_pos_exact)
  qed
qed

lemma double_of_int:
  assumes "\<bar>k\<bar> \<le> 2 ^ 53"
  shows "double (of_int k) = of_int k"
proof -
  consider "k = 0" | "0 < k" | "k < 0" by linarith
  then show ?thesis
  proof cases
    case 1
    then show ?thesis by (simp add: double_0)
  next
    case 2
    with assms show ?thesis
      by (simp add: double_def double_pos_of_int)
  next
    case 3
    with assms have "double_pos (of_int (- k)) = of_int (- k)"
      by (intro double_pos_of_int) simp_all
    with 3 show ?thesis
      by (simp add: double_def)
  qed
qed

lemma js_add_of_int:
  "\<bar>m + n\<bar> \<le> 2 ^ 53 \<Longrightarrow> js_add (of_int m) (of_int n) = of_int (m + n)"
  using double_of_int [of "m + n"] by (simp add: js_add_def)

lemma js_sub_of_int:
  "\<bar>m - n\<bar> \<le> 2 ^ 53 \<Longrightarrow> js_sub (of_int m) (of_int n) = of_int (m - n)"
  using double_of_int [of "m - n"] by (simp add: js_sub_def)

lemma js_mul_positive: "0 < x \<Longrightarrow> 0 < y \<Longrightarrow> 0 < js_mul x y"
  by (simp add: js_mul_def double_positive)

lemma js_add_positive: "0 \<le> x \<Longrightarrow> 0 < y \<Longrightarrow> 0 < js_add x y"
  by (simp add: js_add_def double_positive add_nonneg_pos)

lemma js_add_positive': "0 < x \<Longrightarrow> 0 \<le> y \<Longrightarrow> 0 < js_add x y"
  by (simp add: js_add_def double_positive add_pos_nonneg)

lemma foldl_js_add_of_int:
  fixes f :: "'a \<Rightarrow> int"
  assumes "\<forall>k\<in>set ks. 0 \<le> f k \<and> f k \<le> B" and "int (length ks) * B \<le> 2 ^ 53"
  shows "foldl (\<lambda>acc k. js_add acc (of_int (f k))) 0 ks = of_int (sum_list (map f ks))
         \<and> 0 \<le> sum_list (map f ks) \<and> sum_list (map f ks) \<le> int (length ks) * B"
  using assms
proof (induction ks rule: rev_induct)
  case Nil
  then show ?case by simp
next
  case (snoc k ks)
  from snoc.prems(1) have k: "0 \<le> f k" "f k \<le> B"
    by simp_all
  then have B: "0 \<le> B" by simp
  have len: "int (length ks) * B \<le> int (length (ks @ [k])) * B"
    using B by (simp add: distrib_right)
  with snoc.prems have ih: "foldl (\<lambda>acc k. js_add acc (of_int (f k))) 0 ks = of_int (sum_list (map f ks))"
    and lo: "0 \<le> sum_list (map f ks)" and hi: "sum_list (map f ks) \<le> int (length ks) * B"
    using snoc.IH by simp_all
  have hi': "sum_list (map f ks) + f k \<le> int (length (ks @ [k])) * B"
    using hi k by (simp add: distrib_right)
  with snoc.prems(2) lo k have "\<bar>sum_list (map f ks) + f k\<bar> \<le> 2 ^ 53"
    by linarith
  then have "js_add (of_int (sum_list (map f ks))) (of_int (f k)) = of_int (sum_list (map f ks) + f k)"
    by (rule js_add_of_int)
  with ih lo k hi' show ?case
    by simp
qed

subsection \<open>Evaluating a double\<close>

lemma binexp_unique:
  assumes "0 < x" and "2 powi e \<le> x" and "x < 2 powi (e + 1)"
  shows "binexp x = e"
proof -
  from binexp_bounds [OF assms(1)]
  have lo: "2 powi binexp x \<le> x" and hi: "x < 2 powi (binexp x + 1)"
    by simp_all
  have "\<not> binexp x < e"
  proof
    assume "binexp x < e"
    then have "binexp x + 1 \<le> e" by simp
    then have "(2::rat) powi (binexp x + 1) \<le> 2 powi e"
      by (intro power_int_increasing) simp_all
    with hi assms(2) show False by simp
  qed
  moreover have "\<not> e < binexp x"
  proof
    assume "e < binexp x"
    then have "e + 1 \<le> binexp x" by simp
    then have "(2::rat) powi (e + 1) \<le> 2 powi binexp x"
      by (intro power_int_increasing) simp_all
    with lo assms(3) show False by simp
  qed
  ultimately show ?thesis by simp
qed

lemma binexp_double: "0 < x \<Longrightarrow> binexp (2 * x) = binexp x + 1"
  using binexp_bounds [of x]
  by (intro binexp_unique) (simp_all add: power_int_add)

lemma binexp_half: "0 < x \<Longrightarrow> binexp (x / 2) = binexp x - 1"
  using binexp_double [of "x / 2"] by simp

text \<open>
  The rules by which the simplifier evaluates \<open>double\<close> at a numeral: the exponent is found
  by doubling or halving the argument until it lies in \<open>[1, 2)\<close>.
\<close>

lemma binexp_step:
  "0 < x \<Longrightarrow> binexp x =
     (if x < 1 then binexp (2 * x) - 1 else if 2 \<le> x then binexp (x / 2) + 1 else 0)"
  by (auto simp: binexp_double binexp_half intro!: binexp_unique)

lemma floor_rat_numeral: "\<lfloor>numeral a / numeral b :: rat\<rfloor> = numeral a div numeral b"
  using floor_divide_of_int_eq [of "numeral a" "numeral b", where ?'a = rat] by simp

lemmas double_eval =
  double_def double_pos_def round_even_def Let_def binexp_step floor_rat_numeral
  js_add_def js_sub_def js_mul_def js_div_def

section \<open>calculateSimilarity and getRecencyMultiplier\<close>

lemma Map_has_iff: "Map_has m k \<longleftrightarrow> k \<in> set (Map_keys m)"
  by (simp add: Map_has_def Map_keys_def map_of_eq_None_iff)

lemma set_sharedShows: "set (sharedShows a b) = sharedKeys a b"
  by (auto simp: sharedShows_def sharedKeys_def Map_has_iff)

lemma distinct_sharedShows: "Map_wf a \<Longrightarrow> distinct (sharedShows a b)"
  by (simp add: sharedShows_def Map_wf_def Map_keys_def)

lemma length_sharedShows: "Map_wf a \<Longrightarrow> length (sharedShows a b) = card (sharedKeys a b)"
  using distinct_card [OF distinct_sharedShows, of a b] by (simp add: set_sharedShows)




lemma sharedKeys_commute: "sharedKeys a b = sharedKeys b a"
  by (auto simp: sharedKeys_def)



lemma getRecencyMultiplier_age:
  "getRecencyMultiplier now (Some t) mode =
     (if ageInDays now t < 30 then (if mode = Tonight then 1.3 else 1.1)
      else if ageInDays now t \<le> 180 then 1.0
      else 0.8)"
  by (simp add: getRecencyMultiplier_def daysDiff_def nan_less_def nan_le_def Let_def
        ageInDays_def)

text \<open>
  Claim C2. For a rating with a valid date, the recency multiplier depends only on the
  age in whole days and the mode: below 30 days it is 1.3 in \<open>tonight\<close> mode and 1.1 in
  \<open>this_weekend\<close> mode, from 30 to 180 days inclusive it is 1.0, above 180 days it is 0.8.
  The witness evaluates ages 29, 30, 180 and 181.
\<close>

theorem getRecencyMultiplier_table:
  "(ageInDays now t < 30 \<longrightarrow>
      getRecencyMultiplier now (Some t) Tonight = 1.3
      \<and> getRecencyMultiplier now (Some t) This_weekend = 1.1)
   \<and> (30 \<le> ageInDays now t \<and> ageInDays now t \<le> 180 \<longrightarrow>
      getRecencyMultiplier now (Some t) mode = 1.0)
   \<and> (180 < ageInDays now t \<longrightarrow> getRecencyMultiplier now (Some t) mode = 0.8)
   \<and> (ageInDays now t = ageInDays now' t' \<longrightarrow>
      getRecencyMultiplier now (Some t) mode = getRecencyMultiplier now' (Some t') mode)"
  by (simp add: getRecencyMultiplier_age)

theorem getRecencyMultiplier_table_witness:
  "getRecencyMultiplier (30 * 86400000 - 1) (Some 0) Tonight = 1.3
   \<and> getRecencyMultiplier (30 * 86400000 - 1) (Some 0) This_weekend = 1.1
   \<and> getRecencyMultiplier (30 * 86400000) (Some 0) Tonight = 1.0
   \<and> getRecencyMultiplier (30 * 86400000) (Some 0) This_weekend = 1.0
   \<and> getRecencyMultiplier (181 * 86400000 - 1) (Some 0) Tonight = 1.0
   \<and> getRecencyMultiplier (181 * 86400000 - 1) (Some 0) This_weekend = 1.0
   \<and> getRecencyMultiplier (181 * 86400000) (Some 0) Tonight = 0.8
   \<and> getRecencyMultiplier (181 * 86400000) (Some 0) This_weekend = 0.8
   \<and> getRecencyMultiplier 1700000000000 (Some 1699000000000) Tonight
       = getRecencyMultiplier 1000000000 (Some 0) Tonight"
proof -
  have a29: "ageInDays (30 * 86400000 - 1) 0 = 29"
    by (simp add: ageInDays_def)
  have a30: "ageInDays (30 * 86400000) 0 = 30"
    by (simp add: ageInDays_def)
  have a180: "ageInDays (181 * 86400000 - 1) 0 = 180"
    by (simp add: ageInDays_def)
  have a181: "ageInDays (181 * 86400000) 0 = 181"
    by (simp add: ageInDays_def)
  have same: "ageInDays 1700000000000 1699000000000 = ageInDays 1000000000 0"
    by (simp add: ageInDays_def)
  show ?thesis
    using getRecencyMultiplier_table [of "30 * 86400000 - 1" 0 Tonight]
      getRecencyMultiplier_table [of "30 * 86400000" 0 Tonight]
      getRecencyMultiplier_table [of "30 * 86400000" 0 This_weekend]
      getRecencyMultiplier_table [of "181 * 86400000 - 1" 0 Tonight]
      getRecencyMultiplier_table [of "181 * 86400000 - 1" 0 This_weekend]
      getRecencyMultiplier_table [of "181 * 86400000" 0 Tonight]
      getRecencyMultiplier_table [of "181 * 86400000" 0 This_weekend]
      getRecencyMultiplier_table [of 1700000000000 1699000000000 Tonight 1000000000 0]
    unfolding a29 a30 a180 a181 same
    by simp
qed

subsection \<open>Symmetry\<close>

lemma length_sharedShows_commute:
  assumes "Map_wf a" and "Map_wf b"
  shows "length (sharedShows a b) = length (sharedShows b a)"
  by (simp only: length_sharedShows [OF assms(1)] length_sharedShows [OF assms(2)]
        sharedKeys_commute [of a b])

lemma integerRatings_entry:
  assumes "integerRatings m" and "k \<in> set (Map_keys m)"
  shows "the (Map_get m k) = of_int \<lfloor>the (Map_get m k)\<rfloor> \<and> \<bar>\<lfloor>the (Map_get m k)\<rfloor>\<bar> \<le> 2 ^ 20"
proof -
  from assms(2) obtain v where v: "map_of m k = Some v"
    by (cases "map_of m k") (simp_all add: Map_keys_def map_of_eq_None_iff)
  then have "(k, v) \<in> set m"
    by (rule map_of_SomeD)
  with assms(1) have "of_int \<lfloor>snd (k, v)\<rfloor> = snd (k, v) \<and> \<bar>snd (k, v)\<bar> \<le> 2 ^ 20"
    unfolding integerRatings_def list_all_iff by blast
  then have i: "of_int \<lfloor>v\<rfloor> = v" and b: "\<bar>v\<bar> \<le> 2 ^ 20"
    by simp_all
  from b have "\<bar>rat_of_int \<lfloor>v\<rfloor>\<bar> \<le> 2 ^ 20"
    by (simp only: i)
  then have bound: "\<bar>\<lfloor>v\<rfloor>\<bar> \<le> 2 ^ 20"
    by (simp only: of_int_abs [symmetric] of_int_le_numeral_power_cancel_iff)
  have get: "the (Map_get m k) = v"
    using v by (simp add: Map_get_def)
  show ?thesis
    unfolding get by (rule conjI [OF i [symmetric] bound])
qed

lemma intDiff_commute: "intDiff a b k = intDiff b a k"
  by (simp add: intDiff_def abs_minus_commute)

lemma js_sub_integerRatings:
  assumes "integerRatings a" and "integerRatings b" and "k \<in> sharedKeys a b"
  shows "\<bar>js_sub (the (Map_get a k)) (the (Map_get b k))\<bar> = of_int (intDiff a b k)
         \<and> intDiff a b k \<le> 2 ^ 21"
proof -
  from assms(3) have ka: "k \<in> set (Map_keys a)" and kb: "k \<in> set (Map_keys b)"
    by (simp_all add: sharedKeys_def)
  define x y where "x = \<lfloor>the (Map_get a k)\<rfloor>" and "y = \<lfloor>the (Map_get b k)\<rfloor>"
  from integerRatings_entry [OF assms(1) ka] have x: "the (Map_get a k) = of_int x" "\<bar>x\<bar> \<le> 2 ^ 20"
    by (simp_all add: x_def)
  from integerRatings_entry [OF assms(2) kb] have y: "the (Map_get b k) = of_int y" "\<bar>y\<bar> \<le> 2 ^ 20"
    by (simp_all add: y_def)
  from x(2) y(2) have d: "\<bar>x - y\<bar> \<le> 2 ^ 21"
    by simp
  then have "\<bar>x - y\<bar> \<le> 2 ^ 53"
    by simp
  then have "js_sub (of_int x) (of_int y) = of_int (x - y)"
    by (rule js_sub_of_int)
  with d show ?thesis
    unfolding intDiff_def x_def [symmetric] y_def [symmetric] x(1) y(1) by simp
qed

lemma totalDiff_integerRatings:
  assumes "Map_wf a" and "integerRatings a" and "integerRatings b"
  shows "foldl (\<lambda>acc showId. js_add acc
                  \<bar>js_sub (the (Map_get a showId)) (the (Map_get b showId))\<bar>)
           0 (sharedShows a b)
         = of_int (\<Sum>k\<in>sharedKeys a b. intDiff a b k)"
proof -
  let ?ks = "sharedShows a b"
  have "foldl (\<lambda>acc showId. js_add acc
                  \<bar>js_sub (the (Map_get a showId)) (the (Map_get b showId))\<bar>) 0 ?ks
        = foldl (\<lambda>acc k. js_add acc (of_int (intDiff a b k))) 0 ?ks"
    by (rule foldl_cong)
      (simp_all add: js_sub_integerRatings [OF assms(2,3)] set_sharedShows)
  also have "\<dots> = of_int (sum_list (map (intDiff a b) ?ks))"
  proof -
    have bound: "\<forall>k\<in>set ?ks. 0 \<le> intDiff a b k \<and> intDiff a b k \<le> 2 ^ 21"
      using js_sub_integerRatings [OF assms(2,3)] by (simp add: set_sharedShows intDiff_def)
    have "length ?ks \<le> length a"
      by (simp add: sharedShows_def Map_keys_def le_trans [OF length_filter_le])
    with assms(2) have "int (length ?ks) \<le> 2 ^ 32"
      by (simp add: integerRatings_def)
    then have "int (length ?ks) * 2 ^ 21 \<le> 2 ^ 32 * 2 ^ 21"
      by (rule mult_right_mono) simp
    then have "int (length ?ks) * 2 ^ 21 \<le> 2 ^ 53"
      by simp
    from foldl_js_add_of_int [OF bound this] show ?thesis
      by simp
  qed
  also have "sum_list (map (intDiff a b) ?ks) = sum (intDiff a b) (set ?ks)"
    using distinct_sharedShows [OF assms(1)] by (rule sum_list_distinct_conv_sum_set)
  finally show ?thesis
    by (simp add: set_sharedShows)
qed

lemma calculateSimilarity_double_integerRatings:
  assumes "Map_wf a" and "integerRatings a" and "integerRatings b"
  shows "calculateSimilarity_double a b =
           (if card (sharedKeys a b) < 3 then double 0.3
            else max 0 (min 1 (js_sub 1 (js_div
                   (js_div (of_int (\<Sum>k\<in>sharedKeys a b. intDiff a b k))
                      (of_nat (card (sharedKeys a b)))) 10))))"
  unfolding calculateSimilarity_double_def Let_def
  by (simp only: totalDiff_integerRatings [OF assms] length_sharedShows [OF assms(1)])

lemma calculateSimilarity_double_default:
  assumes "Map_wf a" and "card (sharedKeys a b) < 3"
  shows "calculateSimilarity_double a b = double 0.3"
  using assms(2) unfolding calculateSimilarity_double_def Let_def
  by (simp add: length_sharedShows [OF assms(1)])

text \<open>
  Claim C10, as the code has it. \<open>calculateSimilarity\<close> adds the absolute differences as
  doubles in the key order of its first argument, so the last digit of the result can
  depend on which map is passed first. The result is the same both ways when the two maps
  share fewer than 3 shows (it is the default 0.3) and when both maps hold whole-number
  ratings, as the application writes them: every partial sum is then exact.
\<close>

theorem calculateSimilarity_symmetric_integer:
  assumes "Map_wf a" and "Map_wf b"
    and "card (sharedKeys a b) < 3 \<or> (integerRatings a \<and> integerRatings b)"
  shows "calculateSimilarity_double a b = calculateSimilarity_double b a"
proof (cases "card (sharedKeys a b) < 3")
  case True
  then have "card (sharedKeys b a) < 3"
    by (simp add: sharedKeys_commute [of b a])
  with True assms(1,2) show ?thesis
    by (simp only: calculateSimilarity_double_default)
next
  case False
  with assms(3) have ia: "integerRatings a" and ib: "integerRatings b"
    by simp_all
  have "(\<Sum>k\<in>sharedKeys a b. intDiff a b k) = (\<Sum>k\<in>sharedKeys b a. intDiff b a k)"
    unfolding sharedKeys_commute [of a b] by (simp add: intDiff_commute [of a b])
  then show ?thesis
    by (simp only: calculateSimilarity_double_integerRatings [OF assms(1) ia ib]
          calculateSimilarity_double_integerRatings [OF assms(2) ib ia]
          sharedKeys_commute [of a b])
qed

theorem calculateSimilarity_symmetric_integer_witness:
  "Map_wf [(''a'', 8 :: number), (''b'', 6), (''c'', 7), (''d'', 2)]
   \<and> Map_wf [(''e'', 1 :: number), (''c'', 9), (''b'', 3), (''a'', 8)]
   \<and> integerRatings [(''a'', 8), (''b'', 6), (''c'', 7), (''d'', 2)]
   \<and> integerRatings [(''e'', 1), (''c'', 9), (''b'', 3), (''a'', 8)]
   \<and> 3 \<le> card (sharedKeys [(''a'', 8), (''b'', 6), (''c'', 7), (''d'', 2)]
                [(''e'', 1), (''c'', 9), (''b'', 3), (''a'', 8)])
   \<and> calculateSimilarity_double [(''a'', 8), (''b'', 6), (''c'', 7), (''d'', 2)]
         [(''e'', 1), (''c'', 9), (''b'', 3), (''a'', 8)]
       = calculateSimilarity_double [(''e'', 1), (''c'', 9), (''b'', 3), (''a'', 8)]
           [(''a'', 8), (''b'', 6), (''c'', 7), (''d'', 2)]
   \<and> calculateSimilarity_double [(''a'', 8), (''b'', 6), (''c'', 7), (''d'', 2)]
         [(''e'', 1), (''c'', 9), (''b'', 3), (''a'', 8)] = 3752999689475413 / 4503599627370496"
proof -
  have wa: "Map_wf [(''a'', 8 :: number), (''b'', 6), (''c'', 7), (''d'', 2)]"
    by (simp add: Map_wf_def)
  have wb: "Map_wf [(''e'', 1 :: number), (''c'', 9), (''b'', 3), (''a'', 8)]"
    by (simp add: Map_wf_def)
  have ia: "integerRatings [(''a'', 8), (''b'', 6), (''c'', 7), (''d'', 2)]"
    by (simp add: integerRatings_def)
  have ib: "integerRatings [(''e'', 1), (''c'', 9), (''b'', 3), (''a'', 8)]"
    by (simp add: integerRatings_def)
  have c: "3 \<le> card (sharedKeys [(''a'', 8), (''b'', 6), (''c'', 7), (''d'', 2)]
                [(''e'', 1), (''c'', 9), (''b'', 3), (''a'', 8)])"
    by code_simp
  have v: "calculateSimilarity_double [(''a'', 8), (''b'', 6), (''c'', 7), (''d'', 2)]
         [(''e'', 1), (''c'', 9), (''b'', 3), (''a'', 8)] = 3752999689475413 / 4503599627370496"
    by code_simp
  from wa wb ia ib c v calculateSimilarity_symmetric_integer [OF wa wb disjI2 [OF conjI [OF ia ib]]]
  show ?thesis
    by simp
qed

text \<open>
  Claim C10 as it is written, for every pair of maps: the two maps below hold the ratings
  0.1, 0.5 and 7.7 and the rating 0 on the same three shows, in opposite key order. One
  order of the arguments gives 0.7233333333333333, the other 0.7233333333333334.
\<close>

theorem calculateSimilarity_symmetric_counterexample:
  "Map_wf demo_map1 \<and> Map_wf demo_map2
   \<and> calculateSimilarity_double demo_map1 demo_map2 = 6515207460929317 / 9007199254740992
   \<and> calculateSimilarity_double demo_map2 demo_map1 = 3257603730464659 / 4503599627370496
   \<and> calculateSimilarity_double demo_map1 demo_map2
       \<noteq> calculateSimilarity_double demo_map2 demo_map1"
proof -
  have wf: "Map_wf demo_map1" "Map_wf demo_map2"
    by (simp_all add: Map_wf_def demo_map1_def demo_map2_def)
  have sh: "sharedShows demo_map1 demo_map2 = [''a'', ''b'', ''c'']"
    "sharedShows demo_map2 demo_map1 = [''c'', ''b'', ''a'']"
    by (simp_all add: sharedShows_def Map_keys_def Map_has_def demo_map1_def demo_map2_def)
  have v1: "calculateSimilarity_double demo_map1 demo_map2
            = 6515207460929317 / 9007199254740992"
    unfolding calculateSimilarity_double_def sh Let_def foldl.simps
    by (simp add: Map_get_def demo_map1_def demo_map2_def double_eval)
  have v2: "calculateSimilarity_double demo_map2 demo_map1
            = 3257603730464659 / 4503599627370496"
    unfolding calculateSimilarity_double_def sh Let_def foldl.simps
    by (simp add: Map_get_def demo_map1_def demo_map2_def double_eval)
  show ?thesis
    unfolding v1 v2 using wf by simp
qed

section \<open>computeRecommendStats\<close>

text \<open>
  Claim C7 states \<open>percent = round(100 * positive / total)\<close>. The code rounds the double
  \<open>(positive / total) * 100\<close>. For 23 recommendations among 40 flags the quotient 23 / 40 is
  not a double, the product of the nearest double with 100 is 57.49999999999999, and the
  code returns 57 where the claim gives \<open>round 57.5 = 58\<close>. The counts are as the claim
  states them, and the two examples of the claim evaluate as it says.
\<close>

theorem computeRecommendStats_rounds_the_double:
  "computeRecommendStats demo_flags = \<lparr>total = 40, positive = 23, percent = Some 57\<rparr>
   \<and> round (100 * 23 / 40 :: rat) = 58
   \<and> js_mul (js_div 23 40) 100 = 8092405580431359 / 140737488355328
   \<and> computeRecommendStats [] = \<lparr>total = 0, positive = 0, percent = None\<rparr>
   \<and> computeRecommendStats
         [\<lparr>recommend = Some True\<rparr>, \<lparr>recommend = Some True\<rparr>, \<lparr>recommend = Some False\<rparr>]
       = \<lparr>total = 3, positive = 2, percent = Some 67\<rparr>"
  by code_simp

section \<open>getHomePicks\<close>

lemma update_fresh: "k \<notin> fst ` set m \<Longrightarrow> AList.update k v m = m @ [(k, v)]"
  by (induction m) auto

lemma Map_has_keys: "Map_has m k \<longleftrightarrow> k \<in> fst ` set m"
  by (simp add: Map_has_def map_of_eq_None_iff)

lemma find_snoc:
  "find P (xs @ [x]) = (case find P xs of Some y \<Rightarrow> Some y | None \<Rightarrow> if P x then Some x else None)"
  by (induction xs) auto

lemma combinedPicks_snoc:
  "combinedPicks (cs @ [c]) =
     (if show_id_pick c \<in> fst ` set (combinedPicks cs) then combinedPicks cs
      else combinedPicks cs @ [(show_id_pick c, c)])"
  by (simp add: combinedPicks_def Map_has_keys Map_set_def update_fresh)

lemma find_key_None:
  "k \<notin> show_id_pick ` set xs \<Longrightarrow> find (\<lambda>q. show_id_pick q = k) xs = None"
  by (induction xs) auto

lemma list_ex_pick:
  "list_ex (\<lambda>q. show_id_pick q = k) xs \<longleftrightarrow> k \<in> show_id_pick ` set xs"
  by (induction xs) auto

lemma keys_combinedPicks: "fst ` set (combinedPicks cs) = show_id_pick ` set cs"
proof (induction cs rule: rev_induct)
  case Nil
  show ?case by (simp add: combinedPicks_def)
next
  case (snoc c cs)
  then show ?case
    unfolding combinedPicks_snoc by (cases "show_id_pick c \<in> show_id_pick ` set cs") auto
qed

lemma distinct_keys_combinedPicks: "distinct (map fst (combinedPicks cs))"
proof (induction cs rule: rev_induct)
  case Nil
  show ?case by (simp add: combinedPicks_def)
next
  case (snoc c cs)
  then show ?case
    unfolding combinedPicks_snoc by simp
qed

lemma entries_combinedPicks:
  "(k, p) \<in> set (combinedPicks cs) \<Longrightarrow>
   show_id_pick p = k \<and> find (\<lambda>q. show_id_pick q = k) cs = Some p"
proof (induction cs rule: rev_induct)
  case Nil
  then show ?case by (simp add: combinedPicks_def)
next
  case (snoc c cs)
  show ?case
  proof (cases "show_id_pick c \<in> fst ` set (combinedPicks cs)")
    case True
    with snoc.prems have "(k, p) \<in> set (combinedPicks cs)"
      by (simp add: combinedPicks_snoc)
    then have "show_id_pick p = k \<and> find (\<lambda>q. show_id_pick q = k) cs = Some p"
      by (rule snoc.IH)
    then show ?thesis
      by (simp add: find_snoc)
  next
    case False
    with snoc.prems consider "(k, p) \<in> set (combinedPicks cs)" | "k = show_id_pick c" "p = c"
      by (auto simp: combinedPicks_snoc)
    then show ?thesis
    proof cases
      case 1
      then have "show_id_pick p = k \<and> find (\<lambda>q. show_id_pick q = k) cs = Some p"
        by (rule snoc.IH)
      then show ?thesis
        by (simp add: find_snoc)
    next
      case 2
      from False have "show_id_pick c \<notin> show_id_pick ` set cs"
        by (simp add: keys_combinedPicks)
      then have "find (\<lambda>q. show_id_pick q = show_id_pick c) cs = None"
        by (rule find_key_None)
      with 2 show ?thesis
        by (simp add: find_snoc)
    qed
  qed
qed

lemma values_combinedPicks:
  "map show_id_pick (map snd (combinedPicks cs)) = map fst (combinedPicks cs)"
  using entries_combinedPicks [of _ _ cs] by (auto simp: map_eq_conv)

lemma distinct_combined_values:
  "distinct (map show_id_pick (map snd (combinedPicks cs)))"
  unfolding values_combinedPicks by (rule distinct_keys_combinedPicks)

lemma combined_values_first:
  assumes "p \<in> set (map snd (combinedPicks cs))"
  shows "find (\<lambda>q. show_id_pick q = show_id_pick p) cs = Some p"
proof -
  from assms obtain k where kp: "(k, p) \<in> set (combinedPicks cs)"
    by auto
  from entries_combinedPicks [OF kp] show ?thesis
    by simp
qed

lemma combined_values_ids:
  "show_id_pick ` set (map snd (combinedPicks cs)) = show_id_pick ` set cs"
proof -
  have "show_id_pick ` set (map snd (combinedPicks cs))
        = set (map show_id_pick (map snd (combinedPicks cs)))"
    by (simp only: set_map)
  also have "\<dots> = fst ` set (combinedPicks cs)"
    unfolding values_combinedPicks by simp
  finally show ?thesis
    by (simp only: keys_combinedPicks)
qed

lemma addTrending_snoc:
  "addTrending all (ps @ [p]) =
     (if show_id_pick p \<in> show_id_pick ` set (addTrending all ps) then addTrending all ps
      else addTrending all ps @ [p])"
  by (simp add: addTrending_def list_ex_pick)

lemma ids_addTrending:
  "show_id_pick ` set (addTrending all ps) = show_id_pick ` set all \<union> show_id_pick ` set ps"
proof (induction ps rule: rev_induct)
  case Nil
  show ?case by (simp add: addTrending_def)
next
  case (snoc x ps)
  then show ?case
    unfolding addTrending_snoc
    by (cases "show_id_pick x \<in> show_id_pick ` set (addTrending all ps)") auto
qed

lemma distinct_addTrending:
  "distinct (map show_id_pick all) \<Longrightarrow> distinct (map show_id_pick (addTrending all ps))"
proof (induction ps rule: rev_induct)
  case Nil
  then show ?case by (simp add: addTrending_def)
next
  case (snoc x ps)
  then show ?case
    unfolding addTrending_snoc by simp
qed

lemma members_addTrending:
  "p \<in> set (addTrending all ps) \<Longrightarrow>
   p \<in> set all \<or>
   (show_id_pick p \<notin> show_id_pick ` set all
    \<and> find (\<lambda>q. show_id_pick q = show_id_pick p) ps = Some p)"
proof (induction ps rule: rev_induct)
  case Nil
  then show ?case by (simp add: addTrending_def)
next
  case (snoc x ps)
  show ?case
  proof (cases "p \<in> set (addTrending all ps)")
    case True
    then have "p \<in> set all \<or>
      (show_id_pick p \<notin> show_id_pick ` set all
       \<and> find (\<lambda>q. show_id_pick q = show_id_pick p) ps = Some p)"
      by (rule snoc.IH)
    then show ?thesis
      by (auto simp: find_snoc)
  next
    case False
    with snoc.prems have px: "p = x"
      and fresh: "show_id_pick x \<notin> show_id_pick ` set (addTrending all ps)"
      by (auto simp: addTrending_snoc split: if_splits)
    from fresh have a: "show_id_pick x \<notin> show_id_pick ` set all"
      and b: "show_id_pick x \<notin> show_id_pick ` set ps"
      by (simp_all add: ids_addTrending)
    from b have "find (\<lambda>q. show_id_pick q = show_id_pick x) ps = None"
      by (rule find_key_None)
    with a px show ?thesis
      by (simp add: find_snoc)
  qed
qed

lemma find_append_Some: "find P xs = Some x \<Longrightarrow> find P (xs @ ys) = Some x"
  by (induction xs) auto

lemma find_append_None: "find P xs = None \<Longrightarrow> find P (xs @ ys) = find P ys"
  by (induction xs) auto

lemma getHomePicks_take: "getHomePicks a b ex tr = take 10 (allPicksOf a b ex tr)"
  by (simp add: getHomePicks_def allPicksOf_def Let_def)

lemma allPicksOf_distinct: "distinct (map show_id_pick (allPicksOf a b ex tr))"
  using distinct_combined_values [of "a @ b"]
    distinct_addTrending [OF distinct_combined_values, of "a @ b"]
  by (simp add: allPicksOf_def Let_def split: sum.splits)

lemma allPicksOf_first:
  assumes "p \<in> set (allPicksOf a b ex tr)"
  shows "find (\<lambda>q. show_id_pick q = show_id_pick p) (a @ b @ tierC ex tr) = Some p"
proof -
  let ?c = "map snd (combinedPicks (a @ b))"
  let ?P = "\<lambda>q. show_id_pick q = show_id_pick p"
  consider (old) "p \<in> set ?c"
    | (new) results where "tr = Inr results" "p \<notin> set ?c"
        "p \<in> set (addTrending ?c (trendingPicks ex results))"
    using assms by (auto simp: allPicksOf_def Let_def split: sum.splits if_splits)
  then show ?thesis
  proof cases
    case old
    then have "find ?P (a @ b) = Some p"
      by (rule combined_values_first)
    then have "find ?P ((a @ b) @ tierC ex tr) = Some p"
      by (rule find_append_Some)
    then show ?thesis by simp
  next
    case new
    from members_addTrending [OF new(3)] new(2)
    have fresh: "show_id_pick p \<notin> show_id_pick ` set ?c"
      and first: "find ?P (trendingPicks ex results) = Some p"
      by blast+
    from fresh have "show_id_pick p \<notin> show_id_pick ` set (a @ b)"
      unfolding combined_values_ids .
    then have "find ?P (a @ b) = None"
      by (rule find_key_None)
    then have "find ?P ((a @ b) @ tierC ex tr) = find ?P (tierC ex tr)"
      by (rule find_append_None)
    with first new(1) show ?thesis
      by (simp add: tierC_def)
  qed
qed

text \<open>
  Claim C8. Whatever tiers A and B have produced and whatever the trending source
  answers, the deck \<open>getHomePicks\<close> returns has at most 10 picks, no two of them with the
  same show identifier, and every pick in it is the first pick with its show identifier in
  the sequence tier A, tier B, tier C: the earlier tier wins.
\<close>

theorem getHomePicks_bounded_distinct:
  "length (getHomePicks a b ex tr) \<le> 10
   \<and> distinct (map show_id_pick (getHomePicks a b ex tr))
   \<and> (\<forall>p \<in> set (getHomePicks a b ex tr).
        find (\<lambda>q. show_id_pick q = show_id_pick p) (a @ b @ tierC ex tr) = Some p)"
proof (intro conjI ballI)
  show "length (getHomePicks a b ex tr) \<le> 10"
    by (simp add: getHomePicks_take)
  show "distinct (map show_id_pick (getHomePicks a b ex tr))"
    unfolding getHomePicks_take take_map [symmetric]
    by (rule distinct_take) (rule allPicksOf_distinct)
  fix p assume "p \<in> set (getHomePicks a b ex tr)"
  then have "p \<in> set (allPicksOf a b ex tr)"
    unfolding getHomePicks_take by (rule in_set_takeD)
  then show "find (\<lambda>q. show_id_pick q = show_id_pick p) (a @ b @ tierC ex tr) = Some p"
    by (rule allPicksOf_first)
qed

theorem getHomePicks_bounded_distinct_witness:
  "map show_id_pick
     (getHomePicks [demo_pick ''x'' ''from follows'']
        [demo_pick ''x'' ''popular'', demo_pick ''3'' ''popular''] {} (Inr demo_trending))
     = [''x'', ''3'', ''1'']
   \<and> demo_pick ''x'' ''from follows''
       \<in> set (getHomePicks [demo_pick ''x'' ''from follows'']
                [demo_pick ''x'' ''popular'', demo_pick ''3'' ''popular''] {} (Inr demo_trending))
   \<and> find (\<lambda>q. show_id_pick q = ''x'')
        ([demo_pick ''x'' ''from follows'']
         @ [demo_pick ''x'' ''popular'', demo_pick ''3'' ''popular'']
         @ tierC {} (Inr demo_trending))
       = Some (demo_pick ''x'' ''from follows'')
   \<and> length (getHomePicks [demo_pick ''x'' ''from follows'']
        [demo_pick ''x'' ''popular'', demo_pick ''3'' ''popular''] {} (Inr demo_trending)) \<le> 10
   \<and> distinct (map show_id_pick
        (getHomePicks [demo_pick ''x'' ''from follows'']
           [demo_pick ''x'' ''popular'', demo_pick ''3'' ''popular''] {} (Inr demo_trending)))"
proof -
  let ?deck = "getHomePicks [demo_pick ''x'' ''from follows'']
        [demo_pick ''x'' ''popular'', demo_pick ''3'' ''popular''] {} (Inr demo_trending)"
  have ids: "map show_id_pick ?deck = [''x'', ''3'', ''1'']"
    by code_simp
  have hd: "hd ?deck = demo_pick ''x'' ''from follows''"
    by code_simp
  from ids have "?deck \<noteq> []"
    by auto
  with hd have mem: "demo_pick ''x'' ''from follows'' \<in> set ?deck"
    by (metis hd_in_set)
  have sx: "show_id_pick (demo_pick ''x'' ''from follows'') = ''x''"
    by (simp add: demo_pick_def)
  note inst = getHomePicks_bounded_distinct
    [of "[demo_pick ''x'' ''from follows'']"
        "[demo_pick ''x'' ''popular'', demo_pick ''3'' ''popular'']" "{}" "Inr demo_trending"]
  from inst mem have "find (\<lambda>q. show_id_pick q = show_id_pick (demo_pick ''x'' ''from follows''))
        ([demo_pick ''x'' ''from follows'']
         @ [demo_pick ''x'' ''popular'', demo_pick ''3'' ''popular'']
         @ tierC {} (Inr demo_trending))
       = Some (demo_pick ''x'' ''from follows'')"
    by blast
  then have first: "find (\<lambda>q. show_id_pick q = ''x'')
        ([demo_pick ''x'' ''from follows'']
         @ [demo_pick ''x'' ''popular'', demo_pick ''3'' ''popular'']
         @ tierC {} (Inr demo_trending))
       = Some (demo_pick ''x'' ''from follows'')"
    by (simp only: sx)
  from inst have "length ?deck \<le> 10" and "distinct (map show_id_pick ?deck)"
    by blast+
  with ids mem first show ?thesis
    by blast
qed

section \<open>getPersonalizedRecommendations\<close>

subsection \<open>The groupings\<close>

lemma map_of_groupPush:
  "map_of (groupPush m k v) =
     (map_of m)(k \<mapsto> (case map_of m k of None \<Rightarrow> [] | Some vs \<Rightarrow> vs) @ [v])"
  by (cases "map_of m k")
     (simp_all add: groupPush_def Map_has_def Map_set_def Map_get_def Let_def update_conv')

lemma distinct_groupPush:
  "distinct (map fst m) \<Longrightarrow> distinct (map fst (groupPush m k v))"
  by (cases "map_of m k")
     (simp_all add: groupPush_def Map_has_def Map_set_def Map_get_def Let_def update_conv'
        distinct_update)

lemma grouped_snoc:
  "grouped P key f (xs @ [x]) =
     (if P x then groupPush (grouped P key f xs) (key x) (f x) else grouped P key f xs)"
  by (simp add: grouped_def)

lemma distinct_grouped: "distinct (map fst (grouped P key f xs))"
proof (induction xs rule: rev_induct)
  case Nil
  show ?case by (simp add: grouped_def)
next
  case (snoc x xs)
  then show ?case
    by (simp add: grouped_snoc distinct_groupPush)
qed

lemma map_of_grouped:
  "map_of (grouped P key f xs) k =
     (if filter (\<lambda>r. P r \<and> key r = k) xs = [] then None
      else Some (map f (filter (\<lambda>r. P r \<and> key r = k) xs)))"
proof (induction xs rule: rev_induct)
  case Nil
  show ?case by (simp add: grouped_def)
next
  case (snoc x xs)
  show ?case
  proof (cases "P x \<and> key x = k")
    case True
    with snoc show ?thesis
      by (simp add: grouped_snoc map_of_groupPush)
  next
    case False
    with snoc show ?thesis
      by (auto simp: grouped_snoc map_of_groupPush)
  qed
qed

lemma entry_grouped:
  assumes "(k, vs) \<in> set (grouped P key f xs)"
  shows "vs = map f (filter (\<lambda>r. P r \<and> key r = k) xs) \<and> vs \<noteq> []"
proof -
  from assms distinct_grouped [of P key f xs] have "map_of (grouped P key f xs) k = Some vs"
    by simp
  then show ?thesis
    unfolding map_of_grouped by (auto split: if_splits)
qed

lemma userRatingsGroups_grouped:
  "userRatingsGroups userId allRatings =
     grouped (\<lambda>r. user_id r \<noteq> userId) user_id (\<lambda>r. r) allRatings"
  unfolding userRatingsGroups_def grouped_def
  by (rule arg_cong [where f = "\<lambda>step. foldl step [] allRatings"]) (simp add: fun_eq_iff)

lemma showRatings_grouped:
  "showRatings userId excludeShowIds followedSet allRatings =
     grouped (contributes userId excludeShowIds allRatings) show_id
       (\<lambda>r. contribution r (similarityTo (similarities userId allRatings) (user_id r))
              (user_id r \<in> followedSet))
       allRatings"
  unfolding showRatings_def grouped_def Let_def
  by (rule arg_cong [where f = "\<lambda>step. foldl step [] allRatings"])
     (auto simp: fun_eq_iff contributes_def)

lemma map_of_similarities_aux:
  "distinct (map fst g) \<Longrightarrow>
   map_of (foldl (\<lambda>sims (k, v). Map_set sims k (h v)) [] g) k = map_option h (map_of g k)"
proof (induction g rule: rev_induct)
  case Nil
  show ?case by simp
next
  case (snoc x g)
  obtain k' v' where x: "x = (k', v')" by (cases x)
  from snoc.prems x have d: "distinct (map fst g)" and fresh: "k' \<notin> fst ` set g"
    by auto
  from fresh have none: "map_of g k' = None"
    by (simp add: map_of_eq_None_iff)
  show ?case
    using snoc.IH [OF d] none
    by (auto simp: x Map_set_def update_conv' map_add_def split: option.splits)
qed

lemma similarityTo_similarities:
  assumes "r \<in> set allRatings" and "user_id r \<noteq> userId"
  shows "similarityTo (similarities userId allRatings) (user_id r)
         = similarityOf userId allRatings (user_id r)"
proof -
  let ?g = "userRatingsGroups userId allRatings"
  have flt: "filter (\<lambda>x. user_id x \<noteq> userId \<and> user_id x = user_id r) allRatings
             = userRatingsOf (user_id r) allRatings"
    unfolding userRatingsOf_def using assms(2) by (intro filter_cong) auto
  from assms have ne: "userRatingsOf (user_id r) allRatings \<noteq> []"
    by (auto simp: userRatingsOf_def filter_empty_conv)
  have "map_of ?g (user_id r) = Some (userRatingsOf (user_id r) allRatings)"
    unfolding userRatingsGroups_grouped map_of_grouped flt using ne by simp
  moreover have "distinct (map fst ?g)"
    unfolding userRatingsGroups_grouped by (rule distinct_grouped)
  ultimately show ?thesis
    by (simp add: similarities_def similarityTo_def similarityOf_def or0_def Map_get_def
          map_of_similarities_aux)
qed

subsection \<open>Reading the result\<close>

lemma getPersonalizedRecommendations_Inr:
  assumes "getPersonalizedRecommendations ratingsQ profilesQ followsQ showsQ now userId mode ex
             = Inr recs"
  shows "\<exists>allRatings profiles shows.
           data ratingsQ = Some allRatings \<and> data profilesQ = Some profiles
           \<and> data showsQ = Some shows
           \<and> recs =
               (if length (userRatingsOf userId allRatings) < 3 then []
                else sort_key (\<lambda>r. - score r)
                       (List.map_filter
                          (scoreShow now mode (Map_new (map (\<lambda>p. (id_profile p, p)) profiles))
                             (Map_new (map (\<lambda>s. (id_show s, s)) shows)))
                          (showRatings userId ex (followedSetOf followsQ) allRatings)))"
  using assms
  unfolding getPersonalizedRecommendations_def Let_def
  by (auto split: option.splits if_splits)

lemma getPersonalizedRecommendations_fetched:
  "getPersonalizedRecommendations (fetched allRatings) (fetched profiles) followsQ (fetched shows)
     now userId mode ex
   = Inr (if length (userRatingsOf userId allRatings) < 3 then []
          else sort_key (\<lambda>r. - score r)
                 (List.map_filter
                    (scoreShow now mode (Map_new (map (\<lambda>p. (id_profile p, p)) profiles))
                       (Map_new (map (\<lambda>s. (id_show s, s)) shows)))
                    (showRatings userId ex (followedSetOf followsQ) allRatings)))"
  unfolding getPersonalizedRecommendations_def Let_def fetched_def
  by simp

lemma sorted_desc_sort_key:
  "sorted_wrt (\<lambda>a b. score b \<le> score a) (sort_key (\<lambda>r. - score r) xs)"
proof -
  have "sorted (map (\<lambda>r. - score r) (sort_key (\<lambda>r. - score r) xs))"
    by (rule sorted_sort_key)
  then show ?thesis
    by (simp add: sorted_map)
qed

lemma data_fetched: "data (fetched rows) = Some rows"
  by (simp add: fetched_def)

lemma Map_new_snoc: "Map_new (es @ [(k, v)]) = AList.update k v (Map_new es)"
  by (simp add: Map_new_def Map_set_def)

lemma Map_get_Map_new_None: "Map_get (Map_new es) k = None \<longleftrightarrow> k \<notin> fst ` set es"
proof (induction es rule: rev_induct)
  case Nil
  show ?case by (simp add: Map_new_def Map_get_def)
next
  case (snoc e es)
  obtain k' v' where e: "e = (k', v')" by (cases e)
  from snoc show ?case
    by (auto simp: e Map_new_snoc Map_get_def update_conv')
qed

lemma Map_get_showsMap:
  "Map_get (Map_new (map (\<lambda>s. (id_show s, s)) shows)) showId = None
   \<longleftrightarrow> showId \<notin> id_show ` set shows"
  by (simp add: Map_get_Map_new_None image_image)

subsection \<open>Scoring one show\<close>

lemma contribution_fields [simp]:
  "user_id (contribution r s f) = user_id r"
  "show_id (contribution r s f) = show_id r"
  "enjoyment (contribution r s f) = enjoyment r"
  "hook (contribution r s f) = hook r"
  "consistency (contribution r s f) = consistency r"
  "payoff (contribution r s f) = payoff r"
  "heat (contribution r s f) = heat r"
  "tags (contribution r s f) = tags r"
  "created_at (contribution r s f) = created_at r"
  "similarity (contribution r s f) = s"
  "isFollowed (contribution r s f) = f"
  by (simp_all add: contribution_def)

lemma fst_accumulate:
  "fst (accumulate now mode pm acc c) =
     js_add (fst acc)
       (js_mul (enjoyment c)
          (js_mul (js_add (js_mul (similarity c) (double 0.7))
                     (if isFollowed c then double 0.3 else 0))
             (double (getRecencyMultiplier now (created_at c) mode))))"
  by (cases acc) (simp add: accumulate_def Let_def)

lemma snd_accumulate:
  "fst (snd (accumulate now mode pm acc c)) =
     js_add (fst (snd acc))
       (js_mul (js_add (js_mul (similarity c) (double 0.7))
                  (if isFollowed c then double 0.3 else 0))
          (double (getRecencyMultiplier now (created_at c) mode)))"
  by (cases acc) (simp add: accumulate_def Let_def)

lemma fst_foldl_accumulate:
  "fst (foldl (accumulate now mode pm) acc cs) =
     foldl (\<lambda>s c. js_add s
              (js_mul (enjoyment c)
                 (js_mul (js_add (js_mul (similarity c) (double 0.7))
                            (if isFollowed c then double 0.3 else 0))
                    (double (getRecencyMultiplier now (created_at c) mode)))))
       (fst acc) cs"
  by (induction cs arbitrary: acc) (simp_all add: fst_accumulate)

lemma snd_foldl_accumulate:
  "fst (snd (foldl (accumulate now mode pm) acc cs)) =
     foldl (\<lambda>s c. js_add s
              (js_mul (js_add (js_mul (similarity c) (double 0.7))
                         (if isFollowed c then double 0.3 else 0))
                 (double (getRecencyMultiplier now (created_at c) mode))))
       (fst (snd acc)) cs"
  by (induction cs arbitrary: acc) (simp_all add: snd_accumulate)

lemma weightedSum_contributionsOf:
  "fst (foldl (accumulate now mode pm) (0, 0, [])
          (contributionsOf userId ex followedSet allRatings showId))
   = weightedSumOf now mode userId ex followedSet allRatings showId"
  unfolding fst_foldl_accumulate contributionsOf_def weightedSumOf_def weightedSumOver_def
    ratingWeight_def
  by (simp add: foldl_map)

lemma totalWeight_contributionsOf:
  "fst (snd (foldl (accumulate now mode pm) (0, 0, [])
          (contributionsOf userId ex followedSet allRatings showId)))
   = totalWeightOf now mode userId ex followedSet allRatings showId"
  unfolding snd_foldl_accumulate contributionsOf_def totalWeightOf_def totalWeightOver_def
    ratingWeight_def
  by (simp add: foldl_map)

lemma scoreShow_Some:
  assumes "scoreShow now mode pm sm (showId, cs) = Some rec"
  shows "2 \<le> length cs
         \<and> fst (snd (foldl (accumulate now mode pm) (0, 0, []) cs)) \<noteq> 0
         \<and> Map_get sm showId \<noteq> None
         \<and> show_id_rec rec = showId
         \<and> score rec =
             max 0 (min 10
               (applyDeckModeMultiplier
                  (js_div (fst (foldl (accumulate now mode pm) (0, 0, []) cs))
                     (fst (snd (foldl (accumulate now mode pm) (0, 0, []) cs))))
                  mode
                  (avgRating showId
                     (js_div (fst (foldl (accumulate now mode pm) (0, 0, []) cs))
                        (fst (snd (foldl (accumulate now mode pm) (0, 0, []) cs))))
                     cs)
                  (tags (avgRating showId
                     (js_div (fst (foldl (accumulate now mode pm) (0, 0, []) cs))
                        (fst (snd (foldl (accumulate now mode pm) (0, 0, []) cs))))
                     cs))))"
proof -
  obtain ws tw ctr where acc: "foldl (accumulate now mode pm) (0, 0, []) cs = (ws, tw, ctr)"
    by (cases "foldl (accumulate now mode pm) (0, 0, []) cs") auto
  from assms show ?thesis
    by (auto simp: scoreShow_def acc Let_def split: if_splits option.splits)
qed

lemma scoreShow_None_iff:
  "scoreShow now mode pm sm (showId, cs) = None \<longleftrightarrow>
     length cs < 2
     \<or> fst (snd (foldl (accumulate now mode pm) (0, 0, []) cs)) = 0
     \<or> Map_get sm showId = None"
proof -
  obtain ws tw ctr where acc: "foldl (accumulate now mode pm) (0, 0, []) cs = (ws, tw, ctr)"
    by (cases "foldl (accumulate now mode pm) (0, 0, []) cs") auto
  show ?thesis
    by (auto simp: scoreShow_def acc Let_def split: if_splits option.splits)
qed

subsection \<open>The weights are positive\<close>

lemma calculateSimilarity_double_nonneg: "0 \<le> calculateSimilarity_double a b"
  by (simp add: calculateSimilarity_double_def Let_def double_nonneg)

lemma similarityOf_nonneg: "0 \<le> similarityOf userId allRatings other"
  by (simp add: similarityOf_def calculateSimilarity_double_nonneg)

lemma getRecencyMultiplier_positive: "0 < getRecencyMultiplier now t mode"
  by (cases mode) (simp_all add: getRecencyMultiplier_def Let_def)

lemma ratingWeight_nonneg: "0 \<le> ratingWeight now mode userId followedSet allRatings r"
proof -
  have "0 \<le> js_mul (similarityOf userId allRatings (user_id r)) (double 0.7)"
    by (simp add: js_mul_def double_nonneg similarityOf_nonneg)
  then have "0 \<le> js_add (js_mul (similarityOf userId allRatings (user_id r)) (double 0.7))
                   (if user_id r \<in> followedSet then double 0.3 else 0)"
    by (simp add: js_add_def double_nonneg)
  then show ?thesis
    unfolding ratingWeight_def js_mul_def
    by (intro double_nonneg mult_nonneg_nonneg)
       (simp_all add: double_nonneg less_imp_le [OF getRecencyMultiplier_positive])
qed

lemma ratingWeight_positive:
  assumes "similarityOf userId allRatings (user_id r) \<noteq> 0 \<or> user_id r \<in> followedSet"
  shows "0 < ratingWeight now mode userId followedSet allRatings r"
proof -
  let ?s = "similarityOf userId allRatings (user_id r)"
  have s: "0 \<le> js_mul ?s (double 0.7)"
    by (simp add: js_mul_def double_nonneg similarityOf_nonneg)
  have "0 < js_add (js_mul ?s (double 0.7)) (if user_id r \<in> followedSet then double 0.3 else 0)"
  proof (cases "user_id r \<in> followedSet")
    case True
    with s show ?thesis
      by (simp add: js_add_positive double_positive)
  next
    case False
    with assms similarityOf_nonneg [of userId allRatings "user_id r"] have "0 < ?s"
      by simp
    then have "0 < js_mul ?s (double 0.7)"
      by (simp add: js_mul_positive double_positive)
    with False show ?thesis
      by (simp add: js_add_positive')
  qed
  then show ?thesis
    unfolding ratingWeight_def
    by (rule js_mul_positive) (simp add: double_positive getRecencyMultiplier_positive)
qed

lemma foldl_js_add_positive:
  assumes "\<forall>r\<in>set rs. 0 \<le> w r" and "0 < s"
  shows "0 < foldl (\<lambda>s r. js_add s (w r)) s rs"
  using assms by (induction rs arbitrary: s) (simp_all add: js_add_positive')

lemma totalWeightOver_positive:
  assumes "rs \<noteq> []"
    and "\<forall>r\<in>set rs. 0 \<le> ratingWeight now mode userId followedSet allRatings r"
    and "0 < ratingWeight now mode userId followedSet allRatings (hd rs)"
  shows "0 < totalWeightOver now mode userId followedSet allRatings rs"
proof -
  from assms(1) obtain r rs' where rs: "rs = r # rs'"
    by (cases rs) auto
  from assms(3) have "0 < js_add 0 (ratingWeight now mode userId followedSet allRatings r)"
    by (simp add: rs js_add_positive)
  with assms(2) show ?thesis
    by (simp add: totalWeightOver_def rs foldl_js_add_positive)
qed

lemma totalWeightOf_positive:
  assumes "contributing userId ex allRatings showId \<noteq> []"
  shows "0 < totalWeightOf now mode userId ex followedSet allRatings showId"
  unfolding totalWeightOf_def
proof (rule totalWeightOver_positive [OF assms])
  show "\<forall>r\<in>set (contributing userId ex allRatings showId).
          0 \<le> ratingWeight now mode userId followedSet allRatings r"
    by (simp add: ratingWeight_nonneg)
  from assms have "hd (contributing userId ex allRatings showId)
                   \<in> set (contributing userId ex allRatings showId)"
    by simp
  moreover have "\<forall>r\<in>set (contributing userId ex allRatings showId).
                   similarityOf userId allRatings (user_id r) \<noteq> 0"
    by (simp add: contributing_def)
  ultimately show "0 < ratingWeight now mode userId followedSet allRatings
                   (hd (contributing userId ex allRatings showId))"
    by (simp add: ratingWeight_positive)
qed

subsection \<open>The entries of showRatings\<close>

lemma contributes_iff:
  assumes "r \<in> set allRatings"
  shows "contributes userId ex allRatings r \<and> show_id r = showId \<longleftrightarrow>
           show_id r = showId \<and> user_id r \<noteq> userId
           \<and> showId \<notin> show_id ` set (userRatingsOf userId allRatings)
           \<and> showId \<notin> ex
           \<and> similarityOf userId allRatings (user_id r) \<noteq> 0"
proof (cases "user_id r = userId")
  case True
  then show ?thesis
    by (simp add: contributes_def)
next
  case False
  from similarityTo_similarities [OF assms False] show ?thesis
    by (auto simp: contributes_def)
qed

lemma filter_contributes:
  "filter (\<lambda>r. contributes userId ex allRatings r \<and> show_id r = showId) allRatings
   = contributing userId ex allRatings showId"
  unfolding contributing_def
  by (rule filter_cong [OF refl]) (rule contributes_iff)

lemma map_contribution_contributing:
  "map (\<lambda>r. contribution r (similarityTo (similarities userId allRatings) (user_id r))
              (user_id r \<in> followedSet))
     (contributing userId ex allRatings showId)
   = contributionsOf userId ex followedSet allRatings showId"
  unfolding contributionsOf_def
proof (rule map_cong [OF refl])
  fix r assume "r \<in> set (contributing userId ex allRatings showId)"
  then have "r \<in> set allRatings" and "user_id r \<noteq> userId"
    by (simp_all add: contributing_def)
  from similarityTo_similarities [OF this]
  show "contribution r (similarityTo (similarities userId allRatings) (user_id r))
          (user_id r \<in> followedSet)
        = contribution r (similarityOf userId allRatings (user_id r)) (user_id r \<in> followedSet)"
    by simp
qed

lemma showRatings_entry_iff:
  "(showId, cs) \<in> set (showRatings userId ex followedSet allRatings) \<longleftrightarrow>
     contributing userId ex allRatings showId \<noteq> []
     \<and> cs = contributionsOf userId ex followedSet allRatings showId"
proof -
  let ?f = "\<lambda>r. contribution r (similarityTo (similarities userId allRatings) (user_id r))
                  (user_id r \<in> followedSet)"
  let ?g = "grouped (contributes userId ex allRatings) show_id ?f allRatings"
  have "(showId, cs) \<in> set ?g \<longleftrightarrow> map_of ?g showId = Some cs"
    using distinct_grouped [of "contributes userId ex allRatings" show_id ?f allRatings]
    by simp
  also have "\<dots> \<longleftrightarrow> contributing userId ex allRatings showId \<noteq> []
                   \<and> cs = contributionsOf userId ex followedSet allRatings showId"
    unfolding map_of_grouped filter_contributes map_contribution_contributing by auto
  finally show ?thesis
    unfolding showRatings_grouped .
qed

lemma showRatings_entry:
  assumes "(showId, cs) \<in> set (showRatings userId ex followedSet allRatings)"
  shows "cs = contributionsOf userId ex followedSet allRatings showId"
  using assms by (simp add: showRatings_entry_iff)

lemma set_map_filter: "set (List.map_filter f xs) = {y. \<exists>x\<in>set xs. f x = Some y}"
  by (induction xs) (auto simp: List.map_filter_simps split: option.splits)

lemma length_contributionsOf:
  "length (contributionsOf userId ex followedSet allRatings showId)
   = length (contributing userId ex allRatings showId)"
  by (simp add: contributionsOf_def)

lemma recommended_iff:
  "showId \<in> show_id_rec ` set (List.map_filter
                (scoreShow now mode pm (Map_new (map (\<lambda>s. (id_show s, s)) shows)))
                (showRatings userId ex followedSet allRatings))
   \<longleftrightarrow> 2 \<le> length (contributing userId ex allRatings showId) \<and> showId \<in> id_show ` set shows"
proof
  let ?sm = "Map_new (map (\<lambda>s. (id_show s, s)) shows)"
  assume "showId \<in> show_id_rec ` set (List.map_filter (scoreShow now mode pm ?sm)
                (showRatings userId ex followedSet allRatings))"
  then obtain rec k cs where e: "(k, cs) \<in> set (showRatings userId ex followedSet allRatings)"
    and sc: "scoreShow now mode pm ?sm (k, cs) = Some rec" and id: "show_id_rec rec = showId"
    by (auto simp: set_map_filter)
  from scoreShow_Some [OF sc] id have k: "k = showId" and len: "2 \<le> length cs"
    and sm: "Map_get ?sm showId \<noteq> None"
    by auto
  from showRatings_entry [OF e] len k
  have "2 \<le> length (contributing userId ex allRatings showId)"
    by (simp add: length_contributionsOf)
  with sm show "2 \<le> length (contributing userId ex allRatings showId)
                \<and> showId \<in> id_show ` set shows"
    by (simp add: Map_get_showsMap)
next
  let ?sm = "Map_new (map (\<lambda>s. (id_show s, s)) shows)"
  let ?cs = "contributionsOf userId ex followedSet allRatings showId"
  assume a: "2 \<le> length (contributing userId ex allRatings showId)
             \<and> showId \<in> id_show ` set shows"
  then have ne: "contributing userId ex allRatings showId \<noteq> []"
    by auto
  then have e: "(showId, ?cs) \<in> set (showRatings userId ex followedSet allRatings)"
    by (simp add: showRatings_entry_iff)
  from totalWeightOf_positive [OF ne, of now mode followedSet]
  have "fst (snd (foldl (accumulate now mode pm) (0, 0, []) ?cs)) \<noteq> 0"
    by (simp add: totalWeight_contributionsOf)
  with a have "scoreShow now mode pm ?sm (showId, ?cs) \<noteq> None"
    by (simp add: scoreShow_None_iff length_contributionsOf Map_get_showsMap)
  then obtain rec where sc: "scoreShow now mode pm ?sm (showId, ?cs) = Some rec"
    by auto
  from scoreShow_Some [OF sc] have "show_id_rec rec = showId"
    by simp
  moreover from e sc have "rec \<in> set (List.map_filter (scoreShow now mode pm ?sm)
                (showRatings userId ex followedSet allRatings))"
    by (auto simp: set_map_filter)
  ultimately show "showId \<in> show_id_rec ` set (List.map_filter (scoreShow now mode pm ?sm)
                (showRatings userId ex followedSet allRatings))"
    by (auto simp: image_iff)
qed

lemma recommendation_entry:
  assumes "data ratingsQ = Some allRatings"
    and "getPersonalizedRecommendations ratingsQ profilesQ followsQ showsQ now userId mode ex
           = Inr recs"
    and "rec \<in> set recs"
  shows "\<exists>pm sm. scoreShow now mode pm sm
           (show_id_rec rec,
            contributionsOf userId ex (followedSetOf followsQ) allRatings (show_id_rec rec))
         = Some rec"
proof -
  from getPersonalizedRecommendations_Inr [OF assms(2)] assms(1,3)
  obtain pm sm where
    "rec \<in> set (List.map_filter (scoreShow now mode pm sm)
                  (showRatings userId ex (followedSetOf followsQ) allRatings))"
    by (auto split: if_splits)
  then obtain showId cs
    where e: "(showId, cs) \<in> set (showRatings userId ex (followedSetOf followsQ) allRatings)"
      and sc: "scoreShow now mode pm sm (showId, cs) = Some rec"
    by (auto simp: set_map_filter)
  from scoreShow_Some [OF sc] have "show_id_rec rec = showId"
    by simp
  with showRatings_entry [OF e] sc show ?thesis
    by auto
qed

lemma recommendation_score:
  assumes "data ratingsQ = Some allRatings"
    and "getPersonalizedRecommendations ratingsQ profilesQ followsQ showsQ now userId mode ex
           = Inr recs"
    and "rec \<in> set recs"
  shows "2 \<le> length (contributing userId ex allRatings (show_id_rec rec))
         \<and> totalWeightOf now mode userId ex (followedSetOf followsQ) allRatings (show_id_rec rec)
             \<noteq> 0
         \<and> score rec =
             max 0 (min 10
               (applyDeckModeMultiplier
                  (baseScoreOf now mode userId ex (followedSetOf followsQ) allRatings
                     (show_id_rec rec))
                  mode
                  (avgRating (show_id_rec rec)
                     (baseScoreOf now mode userId ex (followedSetOf followsQ) allRatings
                        (show_id_rec rec))
                     (contributionsOf userId ex (followedSetOf followsQ) allRatings
                        (show_id_rec rec)))
                  (tags (avgRating (show_id_rec rec)
                     (baseScoreOf now mode userId ex (followedSetOf followsQ) allRatings
                        (show_id_rec rec))
                     (contributionsOf userId ex (followedSetOf followsQ) allRatings
                        (show_id_rec rec))))))"
proof -
  from recommendation_entry [OF assms] obtain pm sm where
    "scoreShow now mode pm sm
       (show_id_rec rec,
        contributionsOf userId ex (followedSetOf followsQ) allRatings (show_id_rec rec))
     = Some rec"
    by blast
  from scoreShow_Some [OF this] show ?thesis
    unfolding weightedSum_contributionsOf totalWeight_contributionsOf length_contributionsOf
      baseScoreOf_def
    by simp
qed

lemma recommended_shows:
  assumes "data ratingsQ = Some allRatings" and "data showsQ = Some shows"
    and "getPersonalizedRecommendations ratingsQ profilesQ followsQ showsQ now userId mode ex
           = Inr recs"
  shows "showId \<in> show_id_rec ` set recs \<longleftrightarrow>
           3 \<le> length (userRatingsOf userId allRatings)
           \<and> 2 \<le> length (contributing userId ex allRatings showId)
           \<and> showId \<in> id_show ` set shows"
proof (cases "3 \<le> length (userRatingsOf userId allRatings)")
  case True
  with getPersonalizedRecommendations_Inr [OF assms(3)] assms(1,2)
  obtain profiles where
    "recs = sort_key (\<lambda>r. - score r)
              (List.map_filter
                 (scoreShow now mode (Map_new (map (\<lambda>p. (id_profile p, p)) profiles))
                    (Map_new (map (\<lambda>s. (id_show s, s)) shows)))
                 (showRatings userId ex (followedSetOf followsQ) allRatings))"
    by auto
  with True show ?thesis
    by (simp add: recommended_iff)
next
  case False
  with getPersonalizedRecommendations_Inr [OF assms(3)] assms(1) have "recs = []"
    by auto
  with False show ?thesis
    by simp
qed

lemma fetched_run:
  obtains recs where
    "getPersonalizedRecommendations (fetched allRatings) (fetched profiles) followsQ
       (fetched shows) now userId mode ex = Inr recs"
  by (simp add: getPersonalizedRecommendations_fetched)

lemma two_members_length:
  assumes "a \<in> f ` set xs" and "b \<in> f ` set xs" and "a \<noteq> b"
  shows "2 \<le> length xs"
proof (cases xs)
  case Nil
  with assms(1) show ?thesis by simp
next
  case (Cons x ys)
  with assms show ?thesis
    by (cases ys) auto
qed

subsection \<open>The mode multiplier\<close>

lemma foldl_or0_contributions:
  "foldl (\<lambda>sum r. js_add sum (or0 (field0 r))) 0
     (map (\<lambda>r. contribution r (S r) (F r)) rs)
   = foldl (\<lambda>sum r. js_add sum (or0 (field0 (contribution r (S r) (F r))))) 0 rs"
  by (simp add: foldl_map)

lemma has_tags_contribution: "has_tags (contribution r s f) = has_tags r"
  by (simp add: has_tags_def)

lemma find_has_tags_contributions:
  "find has_tags (map (\<lambda>r. contribution r (S r) (F r)) rs)
   = map_option (\<lambda>r. contribution r (S r) (F r)) (find has_tags rs)"
  by (induction rs) (simp_all add: has_tags_contribution)

lemma avgRating_contributionsOf:
  "hook (avgRating showId b (contributionsOf userId ex fs allRatings showId))
     = Some (avgSubScore hook (contributing userId ex allRatings showId))"
  "payoff (avgRating showId b (contributionsOf userId ex fs allRatings showId))
     = Some (avgSubScore payoff (contributing userId ex allRatings showId))"
  "consistency (avgRating showId b (contributionsOf userId ex fs allRatings showId))
     = Some (avgSubScore consistency (contributing userId ex allRatings showId))"
  "enjoyment (avgRating showId b (contributionsOf userId ex fs allRatings showId)) = b"
  "tags (avgRating showId b (contributionsOf userId ex fs allRatings showId))
     = Some (firstTags (contributing userId ex allRatings showId))"
  unfolding avgRating_def contributionsOf_def avgSubScore_def firstTags_def
  by (simp_all add: foldl_or0_contributions find_has_tags_contributions split: option.splits)

lemma truthy_ge7_Some: "truthy_ge7 (Some v) \<longleftrightarrow> 7 \<le> v"
  by (auto simp: truthy_ge7_def)

lemma applyDeckModeMultiplier_contributionsOf:
  "applyDeckModeMultiplier b mode
     (avgRating showId b (contributionsOf userId ex fs allRatings showId))
     (tags (avgRating showId b (contributionsOf userId ex fs allRatings showId)))
   = js_mul b (deckMultiplier mode b (contributing userId ex allRatings showId))"
  unfolding applyDeckModeMultiplier_def avgRating_contributionsOf Let_def deckMultiplier_def
  by (cases mode) (simp_all add: truthy_ge7_Some)

lemma single_show_scores:
  assumes "showRatings userId ex (followedSetOf followsQ) allRatings = [(showId, cs)]"
    and "3 \<le> length (userRatingsOf userId allRatings)"
    and "2 \<le> length cs"
    and "showId \<in> id_show ` set shows"
  shows "map_sum id (map score)
           (getPersonalizedRecommendations (fetched allRatings) (fetched profiles) followsQ
              (fetched shows) now userId mode ex)
         = Inr [max 0 (min 10
                  (js_mul
                     (baseScoreOf now mode userId ex (followedSetOf followsQ) allRatings showId)
                     (deckMultiplier mode
                        (baseScoreOf now mode userId ex (followedSetOf followsQ) allRatings
                           showId)
                        (contributing userId ex allRatings showId))))]"
proof -
  let ?pm = "Map_new (map (\<lambda>p. (id_profile p, p)) profiles)"
  let ?sm = "Map_new (map (\<lambda>s. (id_show s, s)) shows)"
  let ?fs = "followedSetOf followsQ"
  from assms(1) have "(showId, cs) \<in> set (showRatings userId ex ?fs allRatings)"
    by simp
  then have ne: "contributing userId ex allRatings showId \<noteq> []"
    and cs: "cs = contributionsOf userId ex ?fs allRatings showId"
    by (simp_all add: showRatings_entry_iff)
  from totalWeightOf_positive [OF ne, of now mode ?fs]
  have "fst (snd (foldl (accumulate now mode ?pm) (0, 0, []) cs)) \<noteq> 0"
    by (simp add: cs totalWeight_contributionsOf)
  with assms(3,4) have "scoreShow now mode ?pm ?sm (showId, cs) \<noteq> None"
    by (simp add: scoreShow_None_iff Map_get_showsMap)
  then obtain rec where sc: "scoreShow now mode ?pm ?sm (showId, cs) = Some rec"
    by auto
  from scoreShow_Some [OF sc]
  have "score rec =
          max 0 (min 10
            (js_mul (baseScoreOf now mode userId ex ?fs allRatings showId)
               (deckMultiplier mode (baseScoreOf now mode userId ex ?fs allRatings showId)
                  (contributing userId ex allRatings showId))))"
    unfolding cs weightedSum_contributionsOf totalWeight_contributionsOf
      baseScoreOf_def [symmetric] applyDeckModeMultiplier_contributionsOf
    by simp
  with assms(1,2) sc show ?thesis
    by (simp add: getPersonalizedRecommendations_fetched List.map_filter_simps)
qed

subsection \<open>The order of the result\<close>

text \<open>
  Claim C9. The list \<open>getPersonalizedRecommendations\<close> returns is sorted by score in
  descending order: every element's score is at most the score of each element before it,
  in particular of the element just before it.
\<close>

theorem getPersonalizedRecommendations_sorted:
  assumes "getPersonalizedRecommendations ratingsQ profilesQ followsQ showsQ now userId mode ex
             = Inr recs"
  shows "sorted_wrt (\<lambda>a b. score b \<le> score a) recs
         \<and> (\<forall>i. Suc i < length recs \<longrightarrow> score (recs ! Suc i) \<le> score (recs ! i))"
proof -
  from getPersonalizedRecommendations_Inr [OF assms]
  have "recs = [] \<or> (\<exists>xs. recs = sort_key (\<lambda>r. - score r) xs)"
    by (auto split: if_splits)
  then have s: "sorted_wrt (\<lambda>a b. score b \<le> score a) recs"
    using sorted_desc_sort_key by auto
  have "score (recs ! Suc i) \<le> score (recs ! i)" if "Suc i < length recs" for i
    using sorted_wrt_nth_less [OF s, of i "Suc i"] that by simp
  with s show ?thesis
    by blast
qed

subsection \<open>The weights\<close>

text \<open>
  Claim C3, as the code has it. A rating of a candidate show by another user contributes
  only when the similarity of its rater to the requesting user is not 0: the code skips
  the ratings of a rater of similarity 0, also those of a followed rater. For every show,
  the list the code scores is the list of these contributing ratings, and the loop over it
  leaves in \<open>weightedSum\<close> and \<open>totalWeight\<close> the sums of \<open>enjoyment * weight\<close> and of
  \<open>weight\<close>, added in the order of the ratings in the arithmetic of doubles, where the
  weight of a rating is
  \<open>(similarity * 0.7 + (0.3 if the rater is followed, else 0)) * recencyMultiplier\<close>. The
  total weight of a show with a contributing rating is positive, so a show whose total
  weight is 0 is not in the result; the shows in the result are the shows of the shows
  table with at least 2 contributing ratings, when the requesting user has at least 3
  ratings. The score of a show in the result is \<open>weightedSum / totalWeight\<close> passed through
  the mode multiplier and clamped.
\<close>

theorem getPersonalizedRecommendations_weights:
  assumes "data ratingsQ = Some allRatings" and "data showsQ = Some shows"
    and "getPersonalizedRecommendations ratingsQ profilesQ followsQ showsQ now userId mode ex
           = Inr recs"
  shows "(\<forall>entry \<in> set (showRatings userId ex (followedSetOf followsQ) allRatings).
            snd entry = contributionsOf userId ex (followedSetOf followsQ) allRatings (fst entry)
            \<and> fst (foldl (accumulate now mode profilesMap) (0, 0, []) (snd entry))
                = weightedSumOf now mode userId ex (followedSetOf followsQ) allRatings (fst entry)
            \<and> fst (snd (foldl (accumulate now mode profilesMap) (0, 0, []) (snd entry)))
                = totalWeightOf now mode userId ex (followedSetOf followsQ) allRatings (fst entry))
         \<and> (\<forall>showId.
              contributing userId ex allRatings showId
              = filter (\<lambda>r. similarityOf userId allRatings (user_id r) \<noteq> 0)
                  (candidates userId ex allRatings showId))
         \<and> (\<forall>showId.
              contributing userId ex allRatings showId \<noteq> []
              \<longrightarrow> 0 < totalWeightOf now mode userId ex (followedSetOf followsQ) allRatings showId)
         \<and> (\<forall>showId.
              showId \<in> show_id_rec ` set recs \<longleftrightarrow>
                3 \<le> length (userRatingsOf userId allRatings)
                \<and> 2 \<le> length (contributing userId ex allRatings showId)
                \<and> showId \<in> id_show ` set shows)
         \<and> (\<forall>showId.
              totalWeightOf now mode userId ex (followedSetOf followsQ) allRatings showId = 0
              \<longrightarrow> showId \<notin> show_id_rec ` set recs)
         \<and> (\<forall>rec \<in> set recs.
              score rec =
                max 0 (min 10
                  (applyDeckModeMultiplier
                     (baseScoreOf now mode userId ex (followedSetOf followsQ) allRatings
                        (show_id_rec rec))
                     mode
                     (avgRating (show_id_rec rec)
                        (baseScoreOf now mode userId ex (followedSetOf followsQ) allRatings
                           (show_id_rec rec))
                        (contributionsOf userId ex (followedSetOf followsQ) allRatings
                           (show_id_rec rec)))
                     (tags (avgRating (show_id_rec rec)
                        (baseScoreOf now mode userId ex (followedSetOf followsQ) allRatings
                           (show_id_rec rec))
                        (contributionsOf userId ex (followedSetOf followsQ) allRatings
                           (show_id_rec rec)))))))"
proof (intro conjI ballI allI impI)
  fix entry
  assume e: "entry \<in> set (showRatings userId ex (followedSetOf followsQ) allRatings)"
  then have "(fst entry, snd entry)
             \<in> set (showRatings userId ex (followedSetOf followsQ) allRatings)"
    by simp
  then show c: "snd entry
                = contributionsOf userId ex (followedSetOf followsQ) allRatings (fst entry)"
    by (rule showRatings_entry)
  show "fst (foldl (accumulate now mode profilesMap) (0, 0, []) (snd entry))
        = weightedSumOf now mode userId ex (followedSetOf followsQ) allRatings (fst entry)"
    unfolding c by (rule weightedSum_contributionsOf)
  show "fst (snd (foldl (accumulate now mode profilesMap) (0, 0, []) (snd entry)))
        = totalWeightOf now mode userId ex (followedSetOf followsQ) allRatings (fst entry)"
    unfolding c by (rule totalWeight_contributionsOf)
next
  fix showId
  show "contributing userId ex allRatings showId
        = filter (\<lambda>r. similarityOf userId allRatings (user_id r) \<noteq> 0)
            (candidates userId ex allRatings showId)"
    unfolding contributing_def candidates_def filter_filter
    by (rule filter_cong) auto
next
  fix showId
  assume "contributing userId ex allRatings showId \<noteq> []"
  then show "0 < totalWeightOf now mode userId ex (followedSetOf followsQ) allRatings showId"
    by (rule totalWeightOf_positive)
next
  fix showId
  show "showId \<in> show_id_rec ` set recs \<longleftrightarrow>
          3 \<le> length (userRatingsOf userId allRatings)
          \<and> 2 \<le> length (contributing userId ex allRatings showId)
          \<and> showId \<in> id_show ` set shows"
    by (rule recommended_shows [OF assms])
next
  fix showId
  assume z: "totalWeightOf now mode userId ex (followedSetOf followsQ) allRatings showId = 0"
  show "showId \<notin> show_id_rec ` set recs"
  proof
    assume "showId \<in> show_id_rec ` set recs"
    then obtain rec where "rec \<in> set recs" and "show_id_rec rec = showId"
      by auto
    with recommendation_score [OF assms(1,3), of rec] z show False
      by simp
  qed
next
  fix rec assume "rec \<in> set recs"
  with recommendation_score [OF assms(1,3), of rec]
  show "score rec =
          max 0 (min 10
            (applyDeckModeMultiplier
               (baseScoreOf now mode userId ex (followedSetOf followsQ) allRatings
                  (show_id_rec rec))
               mode
               (avgRating (show_id_rec rec)
                  (baseScoreOf now mode userId ex (followedSetOf followsQ) allRatings
                     (show_id_rec rec))
                  (contributionsOf userId ex (followedSetOf followsQ) allRatings
                     (show_id_rec rec)))
               (tags (avgRating (show_id_rec rec)
                  (baseScoreOf now mode userId ex (followedSetOf followsQ) allRatings
                     (show_id_rec rec))
                  (contributionsOf userId ex (followedSetOf followsQ) allRatings
                     (show_id_rec rec))))))"
    by simp
qed

subsection \<open>The minimum-raters gate\<close>

lemma distinct_raters_contributing:
  assumes "oneRatingPerUserAndShow allRatings"
  shows "distinct (map user_id (contributing userId ex allRatings showId))"
proof -
  let ?L = "contributing userId ex allRatings showId"
  have "distinct (map (\<lambda>r. (user_id r, show_id r)) ?L)"
    using assms unfolding oneRatingPerUserAndShow_def contributing_def
    by (rule distinct_map_filter)
  moreover have "map (\<lambda>r. (user_id r, show_id r)) ?L = map (\<lambda>u. (u, showId)) (map user_id ?L)"
    by (simp add: contributing_def)
  ultimately have "distinct (map (\<lambda>u. (u, showId)) (map user_id ?L))"
    by simp
  then show ?thesis
    by (simp only: distinct_map)
qed

lemma contributingRaters_subset:
  "contributingRaters userId ex allRatings showId \<subseteq> otherRaters userId allRatings showId"
  by (auto simp: contributingRaters_def otherRaters_def contributing_def)

lemma card_contributingRaters:
  assumes "oneRatingPerUserAndShow allRatings"
  shows "card (contributingRaters userId ex allRatings showId)
         = length (contributing userId ex allRatings showId)"
  unfolding contributingRaters_def
  using distinct_card [OF distinct_raters_contributing [OF assms, of userId ex showId]]
  by simp

lemma card_raters_mono:
  "card (contributingRaters userId ex allRatings showId)
   \<le> card (otherRaters userId allRatings showId)"
proof (rule card_mono)
  show "finite (otherRaters userId allRatings showId)"
    by (simp add: otherRaters_def)
  show "contributingRaters userId ex allRatings showId \<subseteq> otherRaters userId allRatings showId"
    by (rule contributingRaters_subset)
qed

text \<open>
  Claim C4. On a ratings table with at most one rating per rater and show, every show in
  the result of \<open>getPersonalizedRecommendations\<close> has contributing ratings from at least 2
  distinct users, hence ratings from at least 2 distinct users other than the requesting
  user; a show with exactly one such rater is not in the result.
\<close>

theorem getPersonalizedRecommendations_min_raters:
  assumes "oneRatingPerUserAndShow allRatings"
    and "data ratingsQ = Some allRatings"
    and "getPersonalizedRecommendations ratingsQ profilesQ followsQ showsQ now userId mode ex
           = Inr recs"
  shows "(\<forall>rec \<in> set recs.
            2 \<le> card (contributingRaters userId ex allRatings (show_id_rec rec))
            \<and> 2 \<le> card (otherRaters userId allRatings (show_id_rec rec)))
         \<and> (\<forall>showId.
              card (otherRaters userId allRatings showId) = 1
              \<or> card (contributingRaters userId ex allRatings showId) = 1
              \<longrightarrow> showId \<notin> show_id_rec ` set recs)"
proof -
  have two: "2 \<le> card (contributingRaters userId ex allRatings (show_id_rec rec))"
    if "rec \<in> set recs" for rec
    using recommendation_score [OF assms(2,3) that] card_contributingRaters [OF assms(1)]
    by simp
  have two': "2 \<le> card (otherRaters userId allRatings (show_id_rec rec))"
    if "rec \<in> set recs" for rec
    using two [OF that] card_raters_mono [of userId ex allRatings "show_id_rec rec"]
    by linarith
  have "showId \<notin> show_id_rec ` set recs"
    if "card (otherRaters userId allRatings showId) = 1
        \<or> card (contributingRaters userId ex allRatings showId) = 1" for showId
  proof
    assume "showId \<in> show_id_rec ` set recs"
    then obtain rec where "rec \<in> set recs" and "show_id_rec rec = showId"
      by auto
    with two [of rec] two' [of rec] that show False
      by auto
  qed
  with two two' show ?thesis
    by blast
qed

subsection \<open>The score\<close>

text \<open>
  Claim C6, as the code has it. The score of every show in the result is the base score
  times the mode multiplier, clamped to \<open>[0, 10]\<close>, in the arithmetic of doubles. The
  multiplier starts at 1.0. In \<open>tonight\<close> mode it gains 0.1 when the sum of the
  contributors' hook sub-scores, an absent one counting as 0, divided by the number of
  contributors is at least 7; then 0.1 when the base score, the weighted mean of the
  contributors' enjoyment, is at least 7; then 0.15 when the tag list of the first
  contributor that has tags contains \<open>easy watch\<close>. In \<open>this_weekend\<close> mode it gains 0.1
  for such an average payoff of at least 7 and 0.1 for such an average consistency of at
  least 7.
\<close>

theorem getPersonalizedRecommendations_score:
  assumes "data ratingsQ = Some allRatings"
    and "getPersonalizedRecommendations ratingsQ profilesQ followsQ showsQ now userId mode ex
           = Inr recs"
  shows "\<forall>rec \<in> set recs.
           score rec =
             max 0 (min 10
               (js_mul
                  (baseScoreOf now mode userId ex (followedSetOf followsQ) allRatings
                     (show_id_rec rec))
                  (deckMultiplier mode
                     (baseScoreOf now mode userId ex (followedSetOf followsQ) allRatings
                        (show_id_rec rec))
                     (contributing userId ex allRatings (show_id_rec rec)))))"
proof
  fix rec assume "rec \<in> set recs"
  from recommendation_score [OF assms this] show "score rec =
             max 0 (min 10
               (js_mul
                  (baseScoreOf now mode userId ex (followedSetOf followsQ) allRatings
                     (show_id_rec rec))
                  (deckMultiplier mode
                     (baseScoreOf now mode userId ex (followedSetOf followsQ) allRatings
                        (show_id_rec rec))
                     (contributing userId ex allRatings (show_id_rec rec)))))"
    by (simp only: applyDeckModeMultiplier_contributionsOf)
qed

subsection \<open>The ratings gate\<close>

text \<open>
  Claim C5. When the requesting user has 0, 1 or 2 ratings,
  \<open>getPersonalizedRecommendations\<close> returns the empty list, whatever the mode, the exclusion
  set, the other rows of the tables and the answer of the follows read. The reads of
  ratings, profiles and shows have succeeded: a failed one makes the function throw for
  every user, which the error handling of the specification leaves to the caller.
\<close>

theorem getPersonalizedRecommendations_gate:
  assumes "length (userRatingsOf userId allRatings) < 3"
  shows "getPersonalizedRecommendations (fetched allRatings) (fetched profiles) followsQ
           (fetched shows) now userId mode ex = Inr []"
  unfolding getPersonalizedRecommendations_fetched using assms by simp

theorem getPersonalizedRecommendations_gate_witness:
  "length (userRatingsOf ''u'' (take 2 demo_ratings2 @ drop 3 demo_ratings2)) = 2
   \<and> getPersonalizedRecommendations (fetched (take 2 demo_ratings2 @ drop 3 demo_ratings2))
        (fetched demo_profiles) (fetched demo_follows2) (fetched demo_shows) demo_now ''u''
        This_weekend {''x''} = Inr []"
proof -
  have two: "length (userRatingsOf ''u'' (take 2 demo_ratings2 @ drop 3 demo_ratings2)) = 2"
    by code_simp
  then have "length (userRatingsOf ''u'' (take 2 demo_ratings2 @ drop 3 demo_ratings2)) < 3"
    by simp
  from getPersonalizedRecommendations_gate [OF this] two show ?thesis
    by simp
qed

subsection \<open>Instances\<close>

lemma demo_rating_fields [simp]:
  "user_id (demo_rating u s e) = u"
  "show_id (demo_rating u s e) = s"
  "enjoyment (demo_rating u s e) = e"
  "hook (demo_rating u s e) = None"
  "consistency (demo_rating u s e) = None"
  "payoff (demo_rating u s e) = None"
  "tags (demo_rating u s e) = None"
  "created_at (demo_rating u s e) = Some 0"
  by (simp_all add: demo_rating_def)

lemma demo_recency:
  "getRecencyMultiplier demo_now (Some 0) Tonight = 1"
  "getRecencyMultiplier demo_now (Some 0) This_weekend = 1"
  by code_simp+

lemma demo_followed:
  "followedSetOf (fetched demo_follows) = {''w''}"
  "followedSetOf (fetched demo_follows2) = {''v''}"
  by (simp_all add: followedSetOf_def fetched_def demo_follows_def demo_follows2_def)

lemma demo_shows_ids: "id_show ` set demo_shows = {''a'', ''b'', ''c'', ''x'', ''y'', ''z''}"
  by (simp add: demo_shows_def)

lemma demo_length: "length (userRatingsOf ''u'' demo_ratings) = 3"
  by code_simp

lemma demo_contributing:
  "contributing ''u'' {} demo_ratings ''x''
   = [demo_rating ''v'' ''x'' 9, demo_rating ''w'' ''x'' 7, demo_rating ''t'' ''x'' 8]"
  "contributing ''u'' {} demo_ratings ''y'' = [demo_rating ''v'' ''y'' 5, demo_rating ''w'' ''y'' 10]"
  "contributing ''u'' {} demo_ratings ''z'' = [demo_rating ''v'' ''z'' 9]"
  "contributing ''u'' {} demo_ratings ''q'' = []"
  by code_simp+

lemma demo_similarity:
  "similarityOf ''u'' demo_ratings ''v'' = 1"
  "similarityOf ''u'' demo_ratings ''w'' = 5404319552844595 / 18014398509481984"
  "similarityOf ''u'' demo_ratings ''t'' = 5404319552844595 / 18014398509481984"
  by code_simp+

lemma demo_weights:
  "ratingWeight demo_now Tonight ''u'' {''w''} demo_ratings (demo_rating ''v'' s e)
   = 3152519739159347 / 4503599627370496"
  "ratingWeight demo_now Tonight ''u'' {''w''} demo_ratings (demo_rating ''w'' s e)
   = 2296835809958953 / 4503599627370496"
  "ratingWeight demo_now Tonight ''u'' {''w''} demo_ratings (demo_rating ''t'' s e)
   = 7566047373982433 / 36028797018963968"
  by (simp_all add: ratingWeight_def demo_similarity demo_recency double_eval)

lemma demo_sums:
  "weightedSumOf demo_now Tonight ''u'' {} {''w''} demo_ratings ''x''
   = 3251035981008077 / 281474976710656"
  "totalWeightOf demo_now Tonight ''u'' {} {''w''} demo_ratings ''x''
   = 799388933858263 / 562949953421312"
  unfolding weightedSumOf_def weightedSumOver_def totalWeightOf_def totalWeightOver_def
    demo_contributing foldl.simps
  by (simp_all add: demo_weights double_eval)

lemma demo_base:
  "baseScoreOf demo_now Tonight ''u'' {} {''w''} demo_ratings ''x''
   = 4578923916912785 / 562949953421312"
  unfolding baseScoreOf_def demo_sums by (simp add: double_eval)

lemma demo_multiplier:
  "deckMultiplier Tonight (4578923916912785 / 562949953421312)
     (contributing ''u'' {} demo_ratings ''x'')
   = 2476979795053773 / 2251799813685248"
  unfolding deckMultiplier_def avgSubScore_def firstTags_def demo_contributing foldl.simps
  by (simp add: or0_def has_tags_def double_eval)

lemma demo_score:
  "max 0 (min 10 (js_mul (4578923916912785 / 562949953421312)
                    (2476979795053773 / 2251799813685248)))
   = 157400509643877 / 17592186044416"
  by (simp add: double_eval)

theorem getPersonalizedRecommendations_sorted_witness:
  "\<exists>recs. getPersonalizedRecommendations (fetched demo_ratings) (fetched demo_profiles)
             (fetched demo_follows) (fetched demo_shows) demo_now ''u'' Tonight {} = Inr recs
          \<and> ''x'' \<in> show_id_rec ` set recs \<and> ''y'' \<in> show_id_rec ` set recs
          \<and> 2 \<le> length recs
          \<and> sorted_wrt (\<lambda>a b. score b \<le> score a) recs
          \<and> score (recs ! 1) \<le> score (recs ! 0)"
proof -
  obtain recs where
    run: "getPersonalizedRecommendations (fetched demo_ratings) (fetched demo_profiles)
             (fetched demo_follows) (fetched demo_shows) demo_now ''u'' Tonight {} = Inr recs"
    by (rule fetched_run)
  have x: "''x'' \<in> show_id_rec ` set recs" and y: "''y'' \<in> show_id_rec ` set recs"
    unfolding recommended_shows [OF data_fetched data_fetched run]
    by (simp_all add: demo_length demo_contributing demo_shows_ids)
  then have len: "2 \<le> length recs"
    by (rule two_members_length) simp
  from getPersonalizedRecommendations_sorted [OF run] len
  have "sorted_wrt (\<lambda>a b. score b \<le> score a) recs \<and> score (recs ! 1) \<le> score (recs ! 0)"
    by auto
  with run x y len show ?thesis
    by (intro exI [of _ recs]) simp
qed

theorem getPersonalizedRecommendations_weights_witness:
  "\<exists>recs. getPersonalizedRecommendations (fetched demo_ratings) (fetched demo_profiles)
             (fetched demo_follows) (fetched demo_shows) demo_now ''u'' Tonight {} = Inr recs
          \<and> map user_id (contributing ''u'' {} demo_ratings ''x'') = [''v'', ''w'', ''t'']
          \<and> ''x'' \<in> show_id_rec ` set recs
          \<and> weightedSumOf demo_now Tonight ''u'' {} {''w''} demo_ratings ''x''
              = 3251035981008077 / 281474976710656
          \<and> totalWeightOf demo_now Tonight ''u'' {} {''w''} demo_ratings ''x''
              = 799388933858263 / 562949953421312
          \<and> 0 < totalWeightOf demo_now Tonight ''u'' {} {''w''} demo_ratings ''x''
          \<and> map user_id (contributing ''u'' {} demo_ratings ''z'') = [''v'']
          \<and> ''z'' \<notin> show_id_rec ` set recs
          \<and> totalWeightOf demo_now Tonight ''u'' {} {''w''} demo_ratings ''q'' = 0
          \<and> ''q'' \<notin> show_id_rec ` set recs
          \<and> (\<exists>r \<in> set recs. show_id_rec r = ''x''
                \<and> score r =
                    max 0 (min 10
                      (applyDeckModeMultiplier (4578923916912785 / 562949953421312) Tonight
                         (avgRating ''x'' (4578923916912785 / 562949953421312)
                            (contributionsOf ''u'' {} {''w''} demo_ratings ''x''))
                         (tags (avgRating ''x'' (4578923916912785 / 562949953421312)
                            (contributionsOf ''u'' {} {''w''} demo_ratings ''x''))))))"
proof -
  obtain recs where
    run: "getPersonalizedRecommendations (fetched demo_ratings) (fetched demo_profiles)
             (fetched demo_follows) (fetched demo_shows) demo_now ''u'' Tonight {} = Inr recs"
    by (rule fetched_run)
  note inst = getPersonalizedRecommendations_weights [OF data_fetched data_fetched run,
      unfolded demo_followed]
  note shown = inst [THEN conjunct2, THEN conjunct2, THEN conjunct2, THEN conjunct1, rule_format]
  note positive = inst [THEN conjunct2, THEN conjunct2, THEN conjunct1, rule_format]
  note dropped = inst [THEN conjunct2, THEN conjunct2, THEN conjunct2, THEN conjunct2,
      THEN conjunct1, rule_format]
  note scored = inst [THEN conjunct2, THEN conjunct2, THEN conjunct2, THEN conjunct2,
      THEN conjunct2, rule_format]
  have x: "''x'' \<in> show_id_rec ` set recs"
    unfolding shown by (simp add: demo_length demo_contributing demo_shows_ids)
  have z: "''z'' \<notin> show_id_rec ` set recs"
    unfolding shown by (simp add: demo_contributing)
  have pos: "0 < totalWeightOf demo_now Tonight ''u'' {} {''w''} demo_ratings ''x''"
    by (rule positive) (simp add: demo_contributing)
  have tq: "totalWeightOf demo_now Tonight ''u'' {} {''w''} demo_ratings ''q'' = 0"
    by (simp add: totalWeightOf_def totalWeightOver_def demo_contributing)
  from dropped [OF tq] have q: "''q'' \<notin> show_id_rec ` set recs" .
  from x obtain r where r: "r \<in> set recs" and id: "show_id_rec r = ''x''"
    by auto
  from scored [OF r] have sc: "score r =
      max 0 (min 10
        (applyDeckModeMultiplier (4578923916912785 / 562949953421312) Tonight
           (avgRating ''x'' (4578923916912785 / 562949953421312)
              (contributionsOf ''u'' {} {''w''} demo_ratings ''x''))
           (tags (avgRating ''x'' (4578923916912785 / 562949953421312)
              (contributionsOf ''u'' {} {''w''} demo_ratings ''x'')))))"
    unfolding id demo_base .
  from r id sc have ex: "\<exists>r \<in> set recs. show_id_rec r = ''x''
      \<and> score r =
          max 0 (min 10
            (applyDeckModeMultiplier (4578923916912785 / 562949953421312) Tonight
               (avgRating ''x'' (4578923916912785 / 562949953421312)
                  (contributionsOf ''u'' {} {''w''} demo_ratings ''x''))
               (tags (avgRating ''x'' (4578923916912785 / 562949953421312)
                  (contributionsOf ''u'' {} {''w''} demo_ratings ''x'')))))"
    by blast
  show ?thesis
    by (rule exI [of _ recs])
       (use run x z pos tq q ex in \<open>simp add: demo_contributing demo_sums\<close>)
qed

theorem getPersonalizedRecommendations_min_raters_witness:
  "oneRatingPerUserAndShow demo_ratings
   \<and> (\<exists>recs. getPersonalizedRecommendations (fetched demo_ratings) (fetched demo_profiles)
                (fetched demo_follows) (fetched demo_shows) demo_now ''u'' Tonight {} = Inr recs
             \<and> ''x'' \<in> show_id_rec ` set recs
             \<and> 2 \<le> card (contributingRaters ''u'' {} demo_ratings ''x'')
             \<and> 2 \<le> card (otherRaters ''u'' demo_ratings ''x'')
             \<and> card (otherRaters ''u'' demo_ratings ''z'') = 1
             \<and> ''z'' \<notin> show_id_rec ` set recs)"
proof -
  obtain recs where
    run: "getPersonalizedRecommendations (fetched demo_ratings) (fetched demo_profiles)
             (fetched demo_follows) (fetched demo_shows) demo_now ''u'' Tonight {} = Inr recs"
    by (rule fetched_run)
  have inv: "oneRatingPerUserAndShow demo_ratings"
    by code_simp
  have one: "card (otherRaters ''u'' demo_ratings ''z'') = 1"
    by code_simp
  have x: "''x'' \<in> show_id_rec ` set recs"
    unfolding recommended_shows [OF data_fetched data_fetched run]
    by (simp add: demo_length demo_contributing demo_shows_ids)
  then obtain r where r: "r \<in> set recs" and id: "show_id_rec r = ''x''"
    by auto
  note inst = getPersonalizedRecommendations_min_raters [OF inv data_fetched run]
  from inst r have "2 \<le> card (contributingRaters ''u'' {} demo_ratings (show_id_rec r))
                    \<and> 2 \<le> card (otherRaters ''u'' demo_ratings (show_id_rec r))"
    by blast
  then have two: "2 \<le> card (contributingRaters ''u'' {} demo_ratings ''x'')"
    "2 \<le> card (otherRaters ''u'' demo_ratings ''x'')"
    by (simp_all only: id)
  from inst one have "''z'' \<notin> show_id_rec ` set recs"
    by blast
  with inv one two x run show ?thesis
    by (intro conjI exI [of _ recs]) simp_all
qed

theorem getPersonalizedRecommendations_score_witness:
  "\<exists>recs. getPersonalizedRecommendations (fetched demo_ratings) (fetched demo_profiles)
             (fetched demo_follows) (fetched demo_shows) demo_now ''u'' Tonight {} = Inr recs
          \<and> baseScoreOf demo_now Tonight ''u'' {} {''w''} demo_ratings ''x''
              = 4578923916912785 / 562949953421312
          \<and> deckMultiplier Tonight (4578923916912785 / 562949953421312)
                (contributing ''u'' {} demo_ratings ''x'')
              = 2476979795053773 / 2251799813685248
          \<and> (\<exists>r \<in> set recs. show_id_rec r = ''x''
                \<and> score r = 157400509643877 / 17592186044416)"
proof -
  obtain recs where
    run: "getPersonalizedRecommendations (fetched demo_ratings) (fetched demo_profiles)
             (fetched demo_follows) (fetched demo_shows) demo_now ''u'' Tonight {} = Inr recs"
    by (rule fetched_run)
  have "''x'' \<in> show_id_rec ` set recs"
    unfolding recommended_shows [OF data_fetched data_fetched run]
    by (simp add: demo_length demo_contributing demo_shows_ids)
  then obtain r where r: "r \<in> set recs" and id: "show_id_rec r = ''x''"
    by auto
  note inst = getPersonalizedRecommendations_score [OF data_fetched run, unfolded demo_followed]
  from inst r have "score r =
      max 0 (min 10
        (js_mul (baseScoreOf demo_now Tonight ''u'' {} {''w''} demo_ratings (show_id_rec r))
           (deckMultiplier Tonight
              (baseScoreOf demo_now Tonight ''u'' {} {''w''} demo_ratings (show_id_rec r))
              (contributing ''u'' {} demo_ratings (show_id_rec r)))))"
    by blast
  then have "score r = 157400509643877 / 17592186044416"
    unfolding id demo_base demo_multiplier demo_score .
  with r id have "\<exists>r \<in> set recs. show_id_rec r = ''x''
      \<and> score r = 157400509643877 / 17592186044416"
    by blast
  with run show ?thesis
    by (intro exI [of _ recs]) (simp add: demo_base demo_multiplier)
qed

subsection \<open>Where the claims as written fail\<close>

lemma demo3_maps:
  "enjoymentMap (userRatingsOf ''u'' demo_ratings3) = [(''a'', 0), (''b'', 0), (''c'', 0)]"
  "enjoymentMap (userRatingsOf ''w'' demo_ratings3)
   = [(''a'', 10), (''b'', 10), (''c'', 10), (''y'', 8)]"
  "enjoymentMap (userRatingsOf ''v'' demo_ratings3) = [(''y'', 6)]"
  by code_simp+

lemma demo3_shared:
  "sharedShows [(''a'', 0 :: number), (''b'', 0), (''c'', 0)]
     [(''a'', 10 :: number), (''b'', 10), (''c'', 10), (''y'', 8)] = [''a'', ''b'', ''c'']"
  "sharedShows [(''a'', 0 :: number), (''b'', 0), (''c'', 0)] [(''y'', 6 :: number)] = []"
  by (simp_all add: sharedShows_def Map_keys_def Map_has_def)

lemma demo3_similarity:
  "similarityOf ''u'' demo_ratings3 ''w'' = 0"
  "similarityOf ''u'' demo_ratings3 ''v'' = 5404319552844595 / 18014398509481984"
  unfolding similarityOf_def demo3_maps calculateSimilarity_double_def demo3_shared Let_def
    foldl.simps
  by (simp_all add: Map_get_def double_eval)

lemma demo3_candidates:
  "candidates ''u'' {} demo_ratings3 ''y'' = [demo_rating ''w'' ''y'' 8, demo_rating ''v'' ''y'' 6]"
  by code_simp

lemma demo3_weights:
  "ratingWeight demo_now Tonight ''u'' {''w''} demo_ratings3 (demo_rating ''w'' s e)
   = 5404319552844595 / 18014398509481984"
  "ratingWeight demo_now Tonight ''u'' {''w''} demo_ratings3 (demo_rating ''v'' s e)
   = 7566047373982433 / 36028797018963968"
  by (simp_all add: ratingWeight_def demo3_similarity demo_recency double_eval)

text \<open>
  Claim C3 as it is written, for every rating of a candidate show by another user. In the
  third table \<open>u\<close> has three ratings and follows \<open>w\<close>; the show \<open>y\<close>, which \<open>u\<close> has not rated,
  has a rating by \<open>w\<close> and one by \<open>v\<close>. The similarity of \<open>w\<close> to \<open>u\<close> is 0, so the weight the
  claim gives to the rating of \<open>w\<close> is \<open>(0 * 0.7 + 0.3) * 1.0\<close>, the double 0.3, and the total
  weight of \<open>y\<close> would be the double 0.51, which is not 0. By the claim \<open>y\<close> is not dropped
  and has a base score. The code skips the rating of \<open>w\<close>, is left with one rating of \<open>y\<close>,
  and returns no recommendation.
\<close>

theorem getPersonalizedRecommendations_weights_counterexample:
  "length (userRatingsOf ''u'' demo_ratings3) = 3
   \<and> followedSetOf (fetched demo_follows) = {''w''}
   \<and> ''y'' \<in> id_show ` set demo_shows
   \<and> candidates ''u'' {} demo_ratings3 ''y''
       = [demo_rating ''w'' ''y'' 8, demo_rating ''v'' ''y'' 6]
   \<and> similarityOf ''u'' demo_ratings3 ''w'' = 0
   \<and> ratingWeight demo_now Tonight ''u'' {''w''} demo_ratings3 (demo_rating ''w'' ''y'' 8)
       = 5404319552844595 / 18014398509481984
   \<and> claimedTotalWeightOf demo_now Tonight ''u'' {} {''w''} demo_ratings3 ''y''
       = 2296835809958953 / 4503599627370496
   \<and> getPersonalizedRecommendations (fetched demo_ratings3) (fetched demo_profiles)
        (fetched demo_follows) (fetched demo_shows) demo_now ''u'' Tonight {} = Inr []"
proof -
  have len: "length (userRatingsOf ''u'' demo_ratings3) = 3"
    by code_simp
  have total: "claimedTotalWeightOf demo_now Tonight ''u'' {} {''w''} demo_ratings3 ''y''
               = 2296835809958953 / 4503599627370496"
    unfolding claimedTotalWeightOf_def totalWeightOver_def demo3_candidates foldl.simps
    by (simp add: demo3_weights double_eval)
  have run: "getPersonalizedRecommendations (fetched demo_ratings3) (fetched demo_profiles)
        (fetched demo_follows) (fetched demo_shows) demo_now ''u'' Tonight {} = Inr []"
    by code_simp
  from len total run show ?thesis
    by (simp add: demo_followed demo_shows_ids demo3_candidates demo3_similarity demo3_weights)
qed

lemma demo2_length:
  "length (userRatingsOf ''u'' demo_ratings2) = 3"
  "length (userRatingsOf ''u'' demo_ratings4) = 3"
  "length (userRatingsOf ''u'' demo_ratings5) = 3"
  by code_simp+

lemma demo2_showRatings:
  "showRatings ''u'' {} (followedSetOf (fetched demo_follows2)) demo_ratings2
   = [(''x'', [contribution (demo_rating ''v'' ''x'' 5) (5404319552844595 / 18014398509481984) True,
              contribution (demo_rating ''w'' ''x'' 10) (5404319552844595 / 18014398509481984)
                False])]"
  "showRatings ''u'' {} (followedSetOf (fetched demo_follows2)) demo_ratings4
   = [(''x'', [contribution ((demo_rating ''v'' ''x'' 5)\<lparr>hook := Some 10\<rparr>)
                (5404319552844595 / 18014398509481984) True,
              contribution (demo_rating ''w'' ''x'' 5) (5404319552844595 / 18014398509481984)
                False])]"
  "showRatings ''u'' {} (followedSetOf (fetched demo_follows2)) demo_ratings5
   = [(''x'', [contribution ((demo_rating ''v'' ''x'' 5)\<lparr>tags := Some [''slow burn'']\<rparr>)
                (5404319552844595 / 18014398509481984) True,
              contribution ((demo_rating ''w'' ''x'' 5)\<lparr>tags := Some [''easy watch'']\<rparr>)
                (5404319552844595 / 18014398509481984) False])]"
  by code_simp+

lemma demo2_contributing:
  "contributing ''u'' {} demo_ratings2 ''x''
   = [demo_rating ''v'' ''x'' 5, demo_rating ''w'' ''x'' 10]"
  "contributing ''u'' {} demo_ratings4 ''x''
   = [(demo_rating ''v'' ''x'' 5)\<lparr>hook := Some 10\<rparr>, demo_rating ''w'' ''x'' 5]"
  "contributing ''u'' {} demo_ratings5 ''x''
   = [(demo_rating ''v'' ''x'' 5)\<lparr>tags := Some [''slow burn'']\<rparr>,
      (demo_rating ''w'' ''x'' 5)\<lparr>tags := Some [''easy watch'']\<rparr>]"
  by code_simp+

lemma demo2_similarity:
  "similarityOf ''u'' demo_ratings2 ''v'' = 5404319552844595 / 18014398509481984"
  "similarityOf ''u'' demo_ratings2 ''w'' = 5404319552844595 / 18014398509481984"
  "similarityOf ''u'' demo_ratings4 ''v'' = 5404319552844595 / 18014398509481984"
  "similarityOf ''u'' demo_ratings4 ''w'' = 5404319552844595 / 18014398509481984"
  "similarityOf ''u'' demo_ratings5 ''v'' = 5404319552844595 / 18014398509481984"
  "similarityOf ''u'' demo_ratings5 ''w'' = 5404319552844595 / 18014398509481984"
  by code_simp+

lemma demo2_weight_values:
  "js_mul (js_add (js_mul (5404319552844595 / 18014398509481984) (double (7 / 10)))
             (double (3 / 10))) (double 1)
   = 2296835809958953 / 4503599627370496"
  "js_mul (js_add (js_mul (5404319552844595 / 18014398509481984) (double (7 / 10))) 0)
     (double 1)
   = 7566047373982433 / 36028797018963968"
  by (simp_all add: double_eval)

lemma demo2_weights:
  "user_id r = ''v'' \<Longrightarrow> created_at r = Some 0 \<Longrightarrow>
   ratingWeight demo_now Tonight ''u'' {''v''} demo_ratings2 r
     = 2296835809958953 / 4503599627370496
   \<and> ratingWeight demo_now Tonight ''u'' {''v''} demo_ratings4 r
       = 2296835809958953 / 4503599627370496
   \<and> ratingWeight demo_now Tonight ''u'' {''v''} demo_ratings5 r
       = 2296835809958953 / 4503599627370496"
  "user_id r = ''w'' \<Longrightarrow> created_at r = Some 0 \<Longrightarrow>
   ratingWeight demo_now Tonight ''u'' {''v''} demo_ratings2 r
     = 7566047373982433 / 36028797018963968
   \<and> ratingWeight demo_now Tonight ''u'' {''v''} demo_ratings4 r
       = 7566047373982433 / 36028797018963968
   \<and> ratingWeight demo_now Tonight ''u'' {''v''} demo_ratings5 r
       = 7566047373982433 / 36028797018963968"
  by (simp_all add: ratingWeight_def demo2_similarity demo_recency demo2_weight_values)

lemma demo2_base_values:
  "js_div
     (js_add (js_add 0 (js_mul 5 (2296835809958953 / 4503599627370496)))
        (js_mul 10 (7566047373982433 / 36028797018963968)))
     (js_add (js_add 0 (2296835809958953 / 4503599627370496))
        (7566047373982433 / 36028797018963968))
   = 3635718449179307 / 562949953421312"
  "js_div
     (js_add (js_add 0 (js_mul 5 (2296835809958953 / 4503599627370496)))
        (js_mul 5 (7566047373982433 / 36028797018963968)))
     (js_add (js_add 0 (2296835809958953 / 4503599627370496))
        (7566047373982433 / 36028797018963968))
   = 5"
  by (simp_all add: double_eval)

lemma demo2_base:
  "baseScoreOf demo_now Tonight ''u'' {} {''v''} demo_ratings2 ''x''
   = 3635718449179307 / 562949953421312"
  "baseScoreOf demo_now Tonight ''u'' {} {''v''} demo_ratings4 ''x'' = 5"
  "baseScoreOf demo_now Tonight ''u'' {} {''v''} demo_ratings5 ''x'' = 5"
  unfolding baseScoreOf_def weightedSumOf_def weightedSumOver_def totalWeightOf_def
    totalWeightOver_def demo2_contributing foldl.simps
  by (simp_all add: demo2_weights demo2_base_values)

lemma demo2_multiplier:
  "deckMultiplier Tonight (3635718449179307 / 562949953421312)
     (contributing ''u'' {} demo_ratings2 ''x'') = 1"
  "deckMultiplier Tonight 5 (contributing ''u'' {} demo_ratings4 ''x'') = 1"
  "deckMultiplier Tonight 5 (contributing ''u'' {} demo_ratings5 ''x'') = 1"
  unfolding deckMultiplier_def avgSubScore_def firstTags_def demo2_contributing foldl.simps
  by (simp_all add: or0_def has_tags_def double_eval)

lemma demo2_scores:
  "map_sum id (map score)
     (getPersonalizedRecommendations (fetched demo_ratings2) (fetched demo_profiles)
        (fetched demo_follows2) (fetched demo_shows) demo_now ''u'' Tonight {})
   = Inr [3635718449179307 / 562949953421312]"
  "map_sum id (map score)
     (getPersonalizedRecommendations (fetched demo_ratings4) (fetched demo_profiles)
        (fetched demo_follows2) (fetched demo_shows) demo_now ''u'' Tonight {})
   = Inr [5]"
  "map_sum id (map score)
     (getPersonalizedRecommendations (fetched demo_ratings5) (fetched demo_profiles)
        (fetched demo_follows2) (fetched demo_shows) demo_now ''u'' Tonight {})
   = Inr [5]"
proof -
  have x: "''x'' \<in> id_show ` set demo_shows"
    by (simp add: demo_shows_ids)
  have one: "js_mul (3635718449179307 / 562949953421312) 1 = 3635718449179307 / 562949953421312"
    "js_mul 5 1 = 5"
    by (simp_all add: double_eval)
  show "map_sum id (map score)
     (getPersonalizedRecommendations (fetched demo_ratings2) (fetched demo_profiles)
        (fetched demo_follows2) (fetched demo_shows) demo_now ''u'' Tonight {})
   = Inr [3635718449179307 / 562949953421312]"
    by (simp add: single_show_scores [OF demo2_showRatings(1)] demo2_length x demo_followed
          demo2_base demo2_multiplier one)
  show "map_sum id (map score)
     (getPersonalizedRecommendations (fetched demo_ratings4) (fetched demo_profiles)
        (fetched demo_follows2) (fetched demo_shows) demo_now ''u'' Tonight {})
   = Inr [5]"
    by (simp add: single_show_scores [OF demo2_showRatings(2)] demo2_length x demo_followed
          demo2_base demo2_multiplier one)
  show "map_sum id (map score)
     (getPersonalizedRecommendations (fetched demo_ratings5) (fetched demo_profiles)
        (fetched demo_follows2) (fetched demo_shows) demo_now ''u'' Tonight {})
   = Inr [5]"
    by (simp add: single_show_scores [OF demo2_showRatings(3)] demo2_length x demo_followed
          demo2_base demo2_multiplier one)
qed

text \<open>
  Claim C6 as it is written, on three tables in \<open>tonight\<close> mode. In each of them \<open>u\<close> has
  three ratings and follows \<open>v\<close>, and the show \<open>x\<close> has the two contributors \<open>v\<close> and \<open>w\<close>, of
  weights 0.51 and 0.21.

  In the second table the contributors' enjoyment is 5 and 10: the average enjoyment is
  7.5, so the claim adds 0.1 and gives the score 7.104. The base score, the weighted mean,
  is 6.458, below 7: the code adds nothing and returns 6.458.

  In the fourth table both give an enjoyment of 5, \<open>v\<close> gives a hook of 10 and \<open>w\<close> gives no
  hook: the average hook across the contributors that gave one is 10, so the claim adds 0.1
  and gives the score 5.5. The code divides the sum 10 by the two contributors, finds 5,
  adds nothing and returns 5.

  In the fifth table both give an enjoyment of 5, \<open>v\<close> tags the show as slow burn and \<open>w\<close>
  as easy watch: the tags of the show include easy watch, so the claim adds 0.15 and gives
  the score 5.75. The code looks at the tags of the first contributor that has any, \<open>v\<close>,
  adds nothing and returns 5.
\<close>

theorem claimed_multiplier_counterexample:
  "(map enjoyment (contributing ''u'' {} demo_ratings2 ''x'') = [5, 10]
    \<and> meanEnjoyment (contributing ''u'' {} demo_ratings2 ''x'') = 15 / 2
    \<and> claimedMultiplier Tonight (contributing ''u'' {} demo_ratings2 ''x'') = 11 / 10
    \<and> baseScoreOf demo_now Tonight ''u'' {} {''v''} demo_ratings2 ''x''
        = 3635718449179307 / 562949953421312
    \<and> max 0 (min 10 (baseScoreOf demo_now Tonight ''u'' {} {''v''} demo_ratings2 ''x''
                       * claimedMultiplier Tonight (contributing ''u'' {} demo_ratings2 ''x'')))
        = 39992902940972377 / 5629499534213120
    \<and> map_sum id (map score)
        (getPersonalizedRecommendations (fetched demo_ratings2) (fetched demo_profiles)
           (fetched demo_follows2) (fetched demo_shows) demo_now ''u'' Tonight {})
        = Inr [3635718449179307 / 562949953421312])
   \<and> (map hook (contributing ''u'' {} demo_ratings4 ''x'') = [Some 10, None]
      \<and> map enjoyment (contributing ''u'' {} demo_ratings4 ''x'') = [5, 5]
      \<and> claimedAverage hook (contributing ''u'' {} demo_ratings4 ''x'') = Some 10
      \<and> claimedMultiplier Tonight (contributing ''u'' {} demo_ratings4 ''x'') = 11 / 10
      \<and> baseScoreOf demo_now Tonight ''u'' {} {''v''} demo_ratings4 ''x'' = 5
      \<and> max 0 (min 10 (baseScoreOf demo_now Tonight ''u'' {} {''v''} demo_ratings4 ''x''
                         * claimedMultiplier Tonight (contributing ''u'' {} demo_ratings4 ''x'')))
          = 11 / 2
      \<and> map_sum id (map score)
          (getPersonalizedRecommendations (fetched demo_ratings4) (fetched demo_profiles)
             (fetched demo_follows2) (fetched demo_shows) demo_now ''u'' Tonight {})
          = Inr [5])
   \<and> (map tags (contributing ''u'' {} demo_ratings5 ''x'')
        = [Some [''slow burn''], Some [''easy watch'']]
      \<and> map enjoyment (contributing ''u'' {} demo_ratings5 ''x'') = [5, 5]
      \<and> claimedMultiplier Tonight (contributing ''u'' {} demo_ratings5 ''x'') = 23 / 20
      \<and> baseScoreOf demo_now Tonight ''u'' {} {''v''} demo_ratings5 ''x'' = 5
      \<and> max 0 (min 10 (baseScoreOf demo_now Tonight ''u'' {} {''v''} demo_ratings5 ''x''
                         * claimedMultiplier Tonight (contributing ''u'' {} demo_ratings5 ''x'')))
          = 23 / 4
      \<and> map_sum id (map score)
          (getPersonalizedRecommendations (fetched demo_ratings5) (fetched demo_profiles)
             (fetched demo_follows2) (fetched demo_shows) demo_now ''u'' Tonight {})
          = Inr [5])"
proof -
  have claimed: "claimedMultiplier Tonight (contributing ''u'' {} demo_ratings2 ''x'') = 11 / 10"
    "claimedMultiplier Tonight (contributing ''u'' {} demo_ratings4 ''x'') = 11 / 10"
    "claimedMultiplier Tonight (contributing ''u'' {} demo_ratings5 ''x'') = 23 / 20"
    "meanEnjoyment (contributing ''u'' {} demo_ratings2 ''x'') = 15 / 2"
    "claimedAverage hook (contributing ''u'' {} demo_ratings4 ''x'') = Some 10"
    unfolding demo2_contributing by code_simp+
  show ?thesis
    unfolding demo2_scores demo2_base claimed
    by (simp add: demo2_contributing)
qed

end
